theory Spec2Isabelle
  imports Complex_Main
begin

section \<open>Conventions of the embedding\<close>

text \<open>
  The program is \<^verbatim>\<open>src/tmk/Main.py\<close>. Python floats are modelled by \<^typ>\<open>real\<close>:
  the arithmetic is the exact one, so rounding error, overflow and NaN are outside the
  model. The one infinite value the program uses on purpose (\<^verbatim>\<open>float("inf")\<close>,
  \<^verbatim>\<open>math.inf\<close>) is kept, in the type \<open>efloat\<close> below. Every exception the modelled
  code can raise is a value of \<open>py_error\<close>; an uncaught exception ends the program, so
  a failing call returns only the error.

  The clock \<^verbatim>\<open>time()\<close> is an input: each place that reads it takes the reading as an
  argument.
\<close>

datatype py_error =
    TypeError
  | ZeroDivisionError
  | NameError
  | AttributeError
  | IndexError
  | KeyError

datatype efloat = Num real | PInf

text \<open>\<^verbatim>\<open>a < b\<close> on floats one of which may be \<^verbatim>\<open>inf\<close>.\<close>

fun ef_less :: "efloat \<Rightarrow> efloat \<Rightarrow> bool" where
  "ef_less (Num a) (Num b) = (a < b)"
| "ef_less (Num a) PInf = True"
| "ef_less PInf b = False"

section \<open>class PID\<close>

text \<open>
  The fields of a \<^verbatim>\<open>PID\<close> object; \<open>p_x\<close> is \<^verbatim>\<open>self._x\<close>. A field that may hold
  \<^verbatim>\<open>None\<close> is an option.
\<close>

record PID =
  p_setpoint :: real
  p_kp :: real
  p_ki :: "real option"
  p_kd :: "real option"
  p_integral_limit :: "real option"
  p_error :: "real option"
  p_time :: "real option"
  p_integral :: "real option"
  p_value :: "real option"

text \<open>\<^verbatim>\<open>PID.__init__\<close>\<close>

definition PID_init ::
  "real \<Rightarrow> real \<Rightarrow> real option \<Rightarrow> real option \<Rightarrow> real option \<Rightarrow> PID" where
  "PID_init setpoint kp ki kd integral_limit =
     \<lparr> p_setpoint = setpoint, p_kp = kp, p_ki = ki, p_kd = kd,
       p_integral_limit = integral_limit,
       p_error = None, p_time = None, p_integral = None, p_value = None \<rparr>"

text \<open>\<^verbatim>\<open>PID.reset\<close>: an argument left out is \<^verbatim>\<open>None\<close> and keeps the stored value.\<close>

definition reset ::
  "PID \<Rightarrow> real option \<Rightarrow> real option \<Rightarrow> real option \<Rightarrow> real option \<Rightarrow> real option \<Rightarrow> PID" where
  "reset self setpoint kp ki kd integral_limit =
     self \<lparr> p_setpoint := (case setpoint of None \<Rightarrow> p_setpoint self | Some v \<Rightarrow> v),
            p_kp := (case kp of None \<Rightarrow> p_kp self | Some v \<Rightarrow> v),
            p_ki := (case ki of None \<Rightarrow> p_ki self | Some v \<Rightarrow> Some v),
            p_kd := (case kd of None \<Rightarrow> p_kd self | Some v \<Rightarrow> Some v),
            p_integral_limit :=
              (case integral_limit of None \<Rightarrow> p_integral_limit self | Some v \<Rightarrow> Some v),
            p_error := None, p_time := None, p_integral := None, p_value := None \<rparr>"

text \<open>
  The integral term of \<^verbatim>\<open>PID.update\<close>: \<^verbatim>\<open>self._integral += error * delta_time\<close> raises
  TypeError on a \<^verbatim>\<open>None\<close> integral. The result is the term \<open>i\<close> and the new integral.
\<close>

definition update_integral ::
  "PID \<Rightarrow> real \<Rightarrow> real \<Rightarrow> py_error + (real \<times> real option)" where
  "update_integral self error delta_time =
     (case p_ki self of
        None \<Rightarrow> Inr (0, p_integral self)
      | Some ki \<Rightarrow>
          (case p_integral self of
             None \<Rightarrow> Inl TypeError
           | Some integral0 \<Rightarrow>
               (let integral = integral0 + error * delta_time;
                    i = ki * integral;
                    i = (case p_integral_limit self of
                           None \<Rightarrow> i
                         | Some limit \<Rightarrow> max (min i limit) ((-1) * limit))
                in Inr (i, Some integral))))"

text \<open>
  The derivative term: \<^verbatim>\<open>self._kd * (error - self._error) / delta_time\<close>. The product is
  evaluated first (TypeError on a \<^verbatim>\<open>None\<close> stored error), then the quotient, and a
  float division by zero raises ZeroDivisionError.
\<close>

definition update_derivative :: "PID \<Rightarrow> real \<Rightarrow> real \<Rightarrow> py_error + real" where
  "update_derivative self error delta_time =
     (case p_kd self of
        None \<Rightarrow> Inr 0
      | Some kd \<Rightarrow>
          (case p_error self of
             None \<Rightarrow> Inl TypeError
           | Some error_old \<Rightarrow>
               (if delta_time = 0 then Inl ZeroDivisionError
                else Inr (kd * (error - error_old) / delta_time))))"

text \<open>
  \<^verbatim>\<open>PID.update(measurement)\<close>, with the reading \<open>now\<close> of \<^verbatim>\<open>time()\<close>. The result is the
  returned control value and the object after the call.
\<close>

definition update :: "PID \<Rightarrow> real \<Rightarrow> real \<Rightarrow> py_error + (real \<times> PID)" where
  "update self measurement now =
     (case p_value self of
        None \<Rightarrow>
          (let error = p_setpoint self - measurement
           in Inr (p_kp self * error,
                   self \<lparr> p_value := Some measurement, p_time := Some now,
                          p_integral := Some 0, p_error := Some error \<rparr>))
      | Some _ \<Rightarrow>
          (case p_time self of
             None \<Rightarrow> Inl TypeError
           | Some time_old \<Rightarrow>
               (let time_now = now;
                    delta_time = time_now - time_old;
                    error = p_setpoint self - measurement;
                    p = p_kp self * error
                in case update_integral self error delta_time of
                     Inl e \<Rightarrow> Inl e
                   | Inr (i, integral) \<Rightarrow>
                       (case update_derivative self error delta_time of
                          Inl e \<Rightarrow> Inl e
                        | Inr d \<Rightarrow>
                            Inr (p + i + d,
                                 self \<lparr> p_time := Some time_now,
                                        p_value := Some measurement,
                                        p_integral := integral,
                                        p_error := Some error \<rparr>)))))"

section \<open>class Point and the geometry\<close>

record point =
  pt_x :: real
  pt_y :: real

text \<open>
  \<^verbatim>\<open>math.atan2(y, x)\<close>: the angle of the vector \<open>(x, y)\<close>, in \<open>(-pi, pi]\<close> (signed zeros are
  outside the model), and \<^verbatim>\<open>math.degrees\<close>.
\<close>

definition atan2 :: "real \<Rightarrow> real \<Rightarrow> real" where
  "atan2 v u =
     (if 0 < u then arctan (v / u)
      else if u < 0 then (if 0 \<le> v then arctan (v / u) + pi else arctan (v / u) - pi)
      else if 0 < v then pi / 2
      else if v < 0 then - (pi / 2)
      else 0)"

definition degrees :: "real \<Rightarrow> real" where
  "degrees r = r * 180 / pi"

text \<open>\<^verbatim>\<open>get_angle(p1, a1, p2)\<close>\<close>

definition get_angle :: "point \<Rightarrow> real \<Rightarrow> point \<Rightarrow> real" where
  "get_angle p1 a1 p2 =
     (let a = degrees (atan2 (pt_y p2 - pt_y p1) (pt_x p2 - pt_x p1));
          a_rel = a - a1
      in if \<bar>a_rel\<bar> > 180
         then (if a_rel > 0 then a_rel - 360 else a_rel + 360)
         else a_rel)"

text \<open>\<^verbatim>\<open>get_distance(p1, p2)\<close>\<close>

definition get_distance :: "point \<Rightarrow> point \<Rightarrow> real" where
  "get_distance p1 p2 = sqrt ((pt_x p2 - pt_x p1)\<^sup>2 + (pt_y p2 - pt_y p1)\<^sup>2)"

text \<open>\<^verbatim>\<open>in_team_one\<close>, \<^verbatim>\<open>in_team_two\<close>: the home zones.\<close>

definition in_team_one :: "point \<Rightarrow> bool" where
  "in_team_one position =
     (if 1 < pt_x position \<and> pt_x position < 520
      then (if 1525 > pt_y position \<and> pt_y position > 520 then True else False)
      else False)"

definition in_team_two :: "point \<Rightarrow> bool" where
  "in_team_two position =
     (if 3046 < pt_x position \<and> pt_x position < 3559
      then (if 1525 > pt_y position \<and> pt_y position > 520 then True else False)
      else False)"

section \<open>The game state\<close>

text \<open>
  One decoded reading of \<^verbatim>\<open>game.json\<close>, with the keys the main loop reads. An apple is
  taken as well formed: its position is the point that \<^verbatim>\<open>Point(...)\<close> makes of the first two
  entries of the list in the feed.

  The entry of a robot keeps what the search for the own robot can meet: under the keys
  \<^verbatim>\<open>position\<close> and \<^verbatim>\<open>direction\<close> there is a value, or \<^verbatim>\<open>null\<close>, or the key is not there at all.
  A position is the list of the feed, of any length.
\<close>

record apple =
  a_id :: int
  a_type :: string
  a_position :: point

datatype 'a json = Missing | Null | Val 'a

record robot =
  r_id :: int
  r_position :: "real list json"
  r_direction :: "real json"

record snapshot =
  gameOn :: bool
  timeLeft :: real
  robots :: "robot list"
  apples :: "apple list"

section \<open>Constants\<close>

definition ROBOT_ID :: int where "ROBOT_ID = 35"
definition SPEED_MAX :: real where "SPEED_MAX = 800"
definition SPEED_BASE_MAX :: real where "SPEED_BASE_MAX = 700"
definition HIST_QUEUE_LENGTH :: nat where "HIST_QUEUE_LENGTH = 3"
definition DIST_EPS :: real where "DIST_EPS = 100"
definition DIR_EPS :: real where "DIR_EPS = 5"
definition DIST_NEAR :: real where "DIST_NEAR = 100"
definition TIMER_NEAR_TARGET :: real where "TIMER_NEAR_TARGET = 3"

section \<open>The target selector\<close>

text \<open>
  The loop of \<^verbatim>\<open>get_closest_good_apple\<close> over the apples still to visit, with the loop
  variables \<^verbatim>\<open>min_apple\<close> and \<^verbatim>\<open>min_dist\<close>.
\<close>

fun closest_loop ::
  "point \<Rightarrow> int \<Rightarrow> apple list \<Rightarrow> apple option \<Rightarrow> efloat \<Rightarrow> apple option" where
  "closest_loop robot_pos closest_id [] min_apple min_dist = min_apple"
| "closest_loop robot_pos closest_id (apple # rest) min_apple min_dist =
     (if a_type apple = ''appleGood'' \<and> a_id apple \<noteq> closest_id
      then (let atm_dist = get_distance robot_pos (a_position apple)
            in if ef_less (Num atm_dist) min_dist
               then closest_loop robot_pos closest_id rest (Some apple) (Num atm_dist)
               else closest_loop robot_pos closest_id rest min_apple min_dist)
      else closest_loop robot_pos closest_id rest min_apple min_dist)"

definition get_closest_good_apple :: "snapshot \<Rightarrow> point \<Rightarrow> int \<Rightarrow> apple option" where
  "get_closest_good_apple game_state_arg robot_pos_arg closest_id =
     closest_loop robot_pos_arg closest_id (apples game_state_arg) None PInf"

section \<open>The main loop\<close>

datatype State =
    GET_APPLE
  | GET_TURN
  | GET_STRAIGHT
  | HOME
  | HOME_TURN
  | HOME_STRAIGHT
  | BACK_OFF

text \<open>What the loop body tells the motors, in the order of the calls.\<close>

datatype motor = motor_left | motor_right | motor_grab

datatype command =
    run_forever motor int
  | stop_brake motor

text \<open>
  The variables of the main loop that live from one pass to the next. \<open>state_old\<close> starts
  as \<^verbatim>\<open>-1\<close>, which equals no state: \<open>None\<close>. \<open>target\<close> starts as \<^verbatim>\<open>None\<close>.
  \<open>robot_near_target_old\<close> and \<open>timer_near_target\<close> are not bound until their first
  assignment: \<open>None\<close>, and reading them then raises NameError. The wheel speeds are integers
  between passes (0 at the start, rounded at the end of a pass). The variables that are
  written and never read (\<^verbatim>\<open>closest_apple_old\<close>, \<^verbatim>\<open>state_old_target\<close>) and the log file of
  the turning angles are left out.
\<close>

record ctx =
  PID_turn :: PID
  PID_frwd_base :: PID
  PID_frwd_turn :: PID
  PID_turn_apple :: PID
  PID_frwd_base_apple :: PID
  PID_frwd_turn_apple :: PID
  pid_frwd_base_apple_multiplier :: real
  speed_right :: int
  speed_left :: int
  robot_dir_hist :: "real list"
  robot_dist_hist :: "efloat list"
  robot_dir_data_id :: int
  t_old :: real
  state :: State
  state_old :: "State option"
  closest_apple_id_old :: int
  target :: "point option"
  target_dist :: real
  target_angle :: real
  robot_near_target_old :: "bool option"
  timer_near_target :: "real option"

text \<open>What is fixed before the loop starts: the team tag and the home point.\<close>

record config =
  team_my_tag :: string
  home :: point

text \<open>
  What one pass of the loop reads from outside: the clock at the top of the pass, the
  clock inside the first and the second call of \<open>update\<close> of the pass, and the answer of
  \<^verbatim>\<open>conn.request()\<close> (\<open>None\<close> for the \<^verbatim>\<open>-1\<close> of a reply that does not parse).
\<close>

record tick_input =
  time_now :: real
  time_pid1 :: real
  time_pid2 :: real
  game_state :: "snapshot option"

text \<open>The state of the program when the loop starts.\<close>

definition initial_context :: "real \<Rightarrow> ctx" where
  "initial_context t0 =
     \<lparr> PID_turn = PID_init 0 (14 / 10) (Some 0) (Some (53 / 100)) (Some 100),
       PID_frwd_base = PID_init 0 1 (Some 0) (Some (1 / 10)) (Some 100),
       PID_frwd_turn = PID_init 0 6 (Some 0) (Some 2) (Some 100),
       PID_turn_apple = PID_init 0 4 (Some 0) (Some 0) (Some 100),
       PID_frwd_base_apple = PID_init 0 1 (Some 0) (Some 0) (Some 100),
       PID_frwd_turn_apple = PID_init 0 15 (Some 0) (Some 0) (Some 100),
       pid_frwd_base_apple_multiplier = 1,
       speed_right = 0, speed_left = 0,
       robot_dir_hist = replicate HIST_QUEUE_LENGTH 180,
       robot_dist_hist = replicate HIST_QUEUE_LENGTH PInf,
       robot_dir_data_id = 0,
       t_old = t0,
       state = GET_APPLE, state_old = None,
       closest_apple_id_old = - 1,
       target = None, target_dist = 0, target_angle = 0,
       robot_near_target_old = None, timer_near_target = None \<rparr>"

text \<open>
  \<^verbatim>\<open>Point(position)\<close> reads \<^verbatim>\<open>position[0]\<close> and \<^verbatim>\<open>position[1]\<close>; on a shorter list the
  index raises IndexError.
\<close>

definition Point :: "real list \<Rightarrow> py_error + point" where
  "Point position =
     (case position of
        u # v # rest \<Rightarrow> Inr \<lparr> pt_x = u, pt_y = v \<rparr>
      | _ \<Rightarrow> Inl IndexError)"

text \<open>
  The search for the own robot among \<^verbatim>\<open>game_state['robots']\<close>: the loop has no
  \<^verbatim>\<open>break\<close>, so the last entry with the id wins. In an entry with the id,
  \<^verbatim>\<open>robot_data['position'][0:2]\<close> raises KeyError without the key and TypeError on
  \<^verbatim>\<open>null\<close>; then \<^verbatim>\<open>robot_data['direction']\<close> raises KeyError without the key, and a
  \<^verbatim>\<open>null\<close> there is the value \<^verbatim>\<open>None\<close>.
\<close>

fun find_robot ::
  "robot list \<Rightarrow> point option \<Rightarrow> real option
     \<Rightarrow> py_error + (point option \<times> real option)" where
  "find_robot [] robot_pos robot_dir = Inr (robot_pos, robot_dir)"
| "find_robot (robot_data # rest) robot_pos robot_dir =
     (if r_id robot_data = ROBOT_ID
      then (case r_position robot_data of
              Missing \<Rightarrow> Inl KeyError
            | Null \<Rightarrow> Inl TypeError
            | Val position \<Rightarrow>
                (case Point (take 2 position) of
                   Inl e \<Rightarrow> Inl e
                 | Inr p \<Rightarrow>
                     (case r_direction robot_data of
                        Missing \<Rightarrow> Inl KeyError
                      | Null \<Rightarrow> find_robot rest (Some p) None
                      | Val d \<Rightarrow> find_robot rest (Some p) (Some d))))
      else find_robot rest robot_pos robot_dir)"

text \<open>\<^verbatim>\<open>hist.popleft(); hist.append(v)\<close>; \<^verbatim>\<open>popleft\<close> of an empty deque raises IndexError.\<close>

definition push_hist :: "'a list \<Rightarrow> 'a \<Rightarrow> py_error + 'a list" where
  "push_hist hist v = (case hist of [] \<Rightarrow> Inl IndexError | _ # rest \<Rightarrow> Inr (rest @ [v]))"

text \<open>
  \<^verbatim>\<open>sum(err) == 0\<close> for \<^verbatim>\<open>err = [abs(a) > DIR_EPS for a in robot_dir_hist]\<close>, and for
  \<^verbatim>\<open>err_eps = [d > DIST_EPS for d in robot_dist_hist]\<close>.
\<close>

definition dir_reached :: "real list \<Rightarrow> bool" where
  "dir_reached hist = (length (filter (\<lambda>a. \<bar>a\<bar> > DIR_EPS) hist) = 0)"

definition dist_reached :: "efloat list \<Rightarrow> bool" where
  "dist_reached hist = (length (filter (\<lambda>d. ef_less (Num DIST_EPS) d) hist) = 0)"

text \<open>
  \<^verbatim>\<open>round(x)\<close> of Python 3 on a float: the nearest integer, a tie going to the even one.
\<close>

definition py_round :: "real \<Rightarrow> int" where
  "py_round v =
     (let f = \<lfloor>v\<rfloor>; r = v - of_int f
      in if r < 1 / 2 then f
         else if 1 / 2 < r then f + 1
         else if even f then f else f + 1)"

text \<open>\<^verbatim>\<open>round(min(max(speed, -SPEED_MAX), SPEED_MAX))\<close>\<close>

definition limit_speed :: "real \<Rightarrow> int" where
  "limit_speed speed = py_round (min (max speed (- SPEED_MAX)) SPEED_MAX)"

text \<open>\<^verbatim>\<open>claws_open\<close> and \<^verbatim>\<open>claws_close\<close> (the half second of sleep is not modelled).\<close>

definition claws_open :: "command list" where
  "claws_open = [run_forever motor_grab 500, stop_brake motor_grab]"

definition claws_close :: "command list" where
  "claws_close = [run_forever motor_grab (- 500), stop_brake motor_grab]"

section \<open>The branches of the state machine\<close>

text \<open>
  Each branch takes the variables as they are after the histories were pushed and gives
  the variables after the branch, the values it leaves in \<^verbatim>\<open>speed_right\<close> and
  \<^verbatim>\<open>speed_left\<close>, and the motor commands it issued itself.
\<close>

type_synonym branch_result = "py_error + (ctx \<times> real \<times> real \<times> command list)"

text \<open>
  \<^verbatim>\<open>State.GET_APPLE\<close>. Subscripting the \<^verbatim>\<open>None\<close> that the selector returns raises
  TypeError.
\<close>

definition state_GET_APPLE :: "ctx \<Rightarrow> snapshot \<Rightarrow> point \<Rightarrow> real \<Rightarrow> branch_result" where
  "state_GET_APPLE c gs robot_pos robot_dir =
     (case get_closest_good_apple gs robot_pos (closest_apple_id_old c) of
        None \<Rightarrow> Inl TypeError
      | Some closest_apple \<Rightarrow>
          (let tgt = a_position closest_apple;
               c = c \<lparr> closest_apple_id_old := a_id closest_apple,
                       target := Some tgt,
                       target_dist := get_distance robot_pos tgt,
                       target_angle := get_angle robot_pos robot_dir tgt \<rparr>
           in if target_dist c > DIST_EPS
              then Inr (c \<lparr> state := GET_TURN, robot_near_target_old := Some False \<rparr>, 0, 0, [])
              else Inr (c \<lparr> state := HOME \<rparr>, 0, 0, [])))"

text \<open>\<^verbatim>\<open>State.HOME\<close>\<close>

definition state_HOME :: "config \<Rightarrow> ctx \<Rightarrow> point \<Rightarrow> real \<Rightarrow> branch_result" where
  "state_HOME cfg c robot_pos robot_dir =
     (let tgt = home cfg;
          c = c \<lparr> target := Some tgt,
                  target_dist := get_distance robot_pos tgt,
                  target_angle := get_angle robot_pos robot_dir tgt \<rparr>
      in if target_dist c > DIST_EPS
         then Inr (c \<lparr> state := HOME_TURN, robot_near_target_old := Some False \<rparr>, 0, 0, [])
         else Inr (c \<lparr> state := GET_APPLE \<rparr>, 0, 0, []))"

text \<open>
  \<^verbatim>\<open>State.GET_TURN\<close>. The call of the selector has no effect that is read later. With
  \<^verbatim>\<open>target\<close> still \<^verbatim>\<open>None\<close>, \<^verbatim>\<open>get_distance\<close> raises AttributeError.
\<close>

definition state_GET_TURN :: "ctx \<Rightarrow> point \<Rightarrow> real \<Rightarrow> bool \<Rightarrow> real \<Rightarrow> branch_result" where
  "state_GET_TURN c robot_pos robot_dir state_changed now1 =
     (case target c of
        None \<Rightarrow> Inl AttributeError
      | Some tgt \<Rightarrow>
          (let c = c \<lparr> target_dist := get_distance robot_pos tgt,
                       target_angle := get_angle robot_pos robot_dir tgt \<rparr>;
               c = (if state_changed
                    then c \<lparr> PID_turn := reset (PID_turn c) None None None None None \<rparr>
                    else c)
           in if dir_reached (robot_dir_hist c)
              then Inr (c \<lparr> state := GET_STRAIGHT,
                            robot_dir_data_id := robot_dir_data_id c + 1 \<rparr>, 0, 0, [])
              else (case update (PID_turn c) (target_angle c) now1 of
                      Inl e \<Rightarrow> Inl e
                    | Inr (u, pid) \<Rightarrow> Inr (c \<lparr> PID_turn := pid \<rparr>, - u, u, []))))"

text \<open>
  The countdown near the target, the same lines in \<^verbatim>\<open>GET_STRAIGHT\<close> and
  \<^verbatim>\<open>HOME_STRAIGHT\<close>:
  \<^verbatim>\<open>if not robot_near_target_old and robot_near_target: timer_near_target = TIMER_NEAR_TARGET\<close>,
  \<^verbatim>\<open>if robot_near_target: timer_near_target = timer_near_target - loop_time\<close>.
  The result says whether the first condition held, and gives the new timer.
\<close>

definition near_target_timer ::
  "ctx \<Rightarrow> bool \<Rightarrow> real \<Rightarrow> py_error + (bool \<times> real option)" where
  "near_target_timer c robot_near_target loop_time =
     (case robot_near_target_old c of
        None \<Rightarrow> Inl NameError
      | Some near_old \<Rightarrow>
          (let entered = (\<not> near_old \<and> robot_near_target);
               timer = (if entered then Some TIMER_NEAR_TARGET else timer_near_target c)
           in if robot_near_target
              then (case timer of
                      None \<Rightarrow> Inl NameError
                    | Some t \<Rightarrow> Inr (entered, Some (t - loop_time)))
              else Inr (entered, timer)))"

text \<open>\<^verbatim>\<open>State.GET_STRAIGHT\<close>\<close>

definition state_GET_STRAIGHT ::
  "ctx \<Rightarrow> point \<Rightarrow> real \<Rightarrow> bool \<Rightarrow> real \<Rightarrow> real \<Rightarrow> real \<Rightarrow> branch_result" where
  "state_GET_STRAIGHT c robot_pos robot_dir state_changed loop_time now1 now2 =
     (case target c of
        None \<Rightarrow> Inl AttributeError
      | Some tgt \<Rightarrow>
          (let c = c \<lparr> target_dist := get_distance robot_pos tgt,
                       target_angle := get_angle robot_pos robot_dir tgt \<rparr>;
               c = (if state_changed
                    then c \<lparr> PID_frwd_base := reset (PID_frwd_base c) None None None None None,
                            PID_frwd_turn := reset (PID_frwd_turn c) None None None None None,
                            timer_near_target := Some TIMER_NEAR_TARGET \<rparr>
                    else c);
               robot_near_target = (target_dist c < DIST_NEAR)
           in case near_target_timer c robot_near_target loop_time of
                Inl e \<Rightarrow> Inl e
              | Inr (entered, timer) \<Rightarrow>
                  (let c = c \<lparr> timer_near_target := timer,
                               robot_near_target_old := Some robot_near_target \<rparr>
                   in if dist_reached (robot_dist_hist c)
                      then Inr (c \<lparr> state := HOME \<rparr>, 0, 0,
                                [run_forever motor_right (- 0), run_forever motor_left (- 0)]
                                @ claws_close)
                      else (case timer_near_target c of
                              None \<Rightarrow> Inl NameError
                            | Some t \<Rightarrow>
                                if t < 0 then Inr (c \<lparr> state := GET_TURN \<rparr>, 0, 0, [])
                                else (case update (PID_frwd_turn c) (target_angle c) now1 of
                                        Inl e \<Rightarrow> Inl e
                                      | Inr (u_turn, pid_turn) \<Rightarrow>
                                          (case update (PID_frwd_base c) (target_dist c) now2 of
                                             Inl e \<Rightarrow> Inl e
                                           | Inr (u_base0, pid_base) \<Rightarrow>
                                               (let u_base = min (max u_base0 (- SPEED_BASE_MAX))
                                                                 SPEED_BASE_MAX
                                                in Inr (c \<lparr> PID_frwd_turn := pid_turn,
                                                            PID_frwd_base := pid_base \<rparr>,
                                                        - u_base - u_turn,
                                                        - u_base + u_turn, []))))))))"

text \<open>\<^verbatim>\<open>State.HOME_TURN\<close>\<close>

definition state_HOME_TURN :: "ctx \<Rightarrow> point \<Rightarrow> real \<Rightarrow> bool \<Rightarrow> real \<Rightarrow> branch_result" where
  "state_HOME_TURN c robot_pos robot_dir state_changed now1 =
     (case target c of
        None \<Rightarrow> Inl AttributeError
      | Some tgt \<Rightarrow>
          (let c = c \<lparr> target_dist := get_distance robot_pos tgt,
                       target_angle := get_angle robot_pos robot_dir tgt \<rparr>;
               c = (if state_changed
                    then c \<lparr> PID_turn_apple := reset (PID_turn_apple c) None None None None None \<rparr>
                    else c)
           in if dir_reached (robot_dir_hist c)
              then Inr (c \<lparr> state := HOME_STRAIGHT \<rparr>, 0, 0, [])
              else (case update (PID_turn_apple c) (target_angle c) now1 of
                      Inl e \<Rightarrow> Inl e
                    | Inr (u, pid) \<Rightarrow> Inr (c \<lparr> PID_turn_apple := pid \<rparr>, - u, u, []))))"

text \<open>\<^verbatim>\<open>State.HOME_STRAIGHT\<close>\<close>

definition state_HOME_STRAIGHT ::
  "config \<Rightarrow> ctx \<Rightarrow> point \<Rightarrow> real \<Rightarrow> bool \<Rightarrow> real \<Rightarrow> real \<Rightarrow> real \<Rightarrow> branch_result" where
  "state_HOME_STRAIGHT cfg c robot_pos robot_dir state_changed loop_time now1 now2 =
     (let smoDoma = (if team_my_tag cfg = ''team1'' then in_team_one robot_pos
                     else in_team_two robot_pos)
      in case target c of
        None \<Rightarrow> Inl AttributeError
      | Some tgt \<Rightarrow>
          (let c = c \<lparr> target_dist := get_distance robot_pos tgt,
                       target_angle := get_angle robot_pos robot_dir tgt \<rparr>;
               c = (if state_changed
                    then c \<lparr> PID_frwd_base_apple :=
                              reset (PID_frwd_base_apple c) None None None None None,
                            PID_frwd_turn_apple :=
                              reset (PID_frwd_turn_apple c) None None None None None,
                            timer_near_target := Some TIMER_NEAR_TARGET,
                            pid_frwd_base_apple_multiplier := 1 \<rparr>
                    else c);
               robot_near_target = (target_dist c < DIST_NEAR)
           in case near_target_timer c robot_near_target loop_time of
                Inl e \<Rightarrow> Inl e
              | Inr (entered, timer) \<Rightarrow>
                  (let c = c \<lparr> pid_frwd_base_apple_multiplier :=
                                 (if entered then 1 / 10 else pid_frwd_base_apple_multiplier c),
                               timer_near_target := timer,
                               robot_near_target_old := Some robot_near_target \<rparr>
                   in if dist_reached (robot_dist_hist c) \<or> smoDoma
                      then Inr (c \<lparr> state := BACK_OFF \<rparr>, 0, 0,
                                [run_forever motor_right (- 0), run_forever motor_left (- 0)]
                                @ claws_open)
                      else (case timer_near_target c of
                              None \<Rightarrow> Inl NameError
                            | Some t \<Rightarrow>
                                if t < 0 then Inr (c \<lparr> state := HOME_TURN \<rparr>, 0, 0, [])
                                else (case update (PID_frwd_turn_apple c) (target_angle c) now1 of
                                        Inl e \<Rightarrow> Inl e
                                      | Inr (u_turn0, pid_turn) \<Rightarrow>
                                          (case update (PID_frwd_base_apple c) (target_dist c) now2 of
                                             Inl e \<Rightarrow> Inl e
                                           | Inr (u_base0, pid_base) \<Rightarrow>
                                               (let u_turn =
                                                      u_turn0 * pid_frwd_base_apple_multiplier c;
                                                    u_base1 =
                                                      u_base0 * pid_frwd_base_apple_multiplier c;
                                                    u_base = min (max u_base1 (- SPEED_BASE_MAX))
                                                                 SPEED_BASE_MAX
                                                in Inr (c \<lparr> PID_frwd_turn_apple := pid_turn,
                                                            PID_frwd_base_apple := pid_base \<rparr>,
                                                        - u_base - u_turn,
                                                        - u_base + u_turn, []))))))))"

text \<open>
  \<^verbatim>\<open>State.BACK_OFF\<close> (the second of sleep is not modelled). The speed variables keep the
  values of the pass before.
\<close>

definition state_BACK_OFF :: "ctx \<Rightarrow> branch_result" where
  "state_BACK_OFF c =
     Inr (c \<lparr> state := GET_APPLE \<rparr>, of_int (speed_right c), of_int (speed_left c),
          [run_forever motor_right 200, run_forever motor_left 200,
           stop_brake motor_left, stop_brake motor_right])"

text \<open>The \<^verbatim>\<open>if state == ... elif ...\<close> chain.\<close>

definition state_branch ::
  "config \<Rightarrow> ctx \<Rightarrow> snapshot \<Rightarrow> point \<Rightarrow> real \<Rightarrow> bool \<Rightarrow> real \<Rightarrow> tick_input \<Rightarrow> branch_result" where
  "state_branch cfg c gs robot_pos robot_dir state_changed loop_time inp =
     (case state c of
        GET_APPLE \<Rightarrow> state_GET_APPLE c gs robot_pos robot_dir
      | HOME \<Rightarrow> state_HOME cfg c robot_pos robot_dir
      | GET_TURN \<Rightarrow> state_GET_TURN c robot_pos robot_dir state_changed (time_pid1 inp)
      | GET_STRAIGHT \<Rightarrow>
          state_GET_STRAIGHT c robot_pos robot_dir state_changed loop_time
            (time_pid1 inp) (time_pid2 inp)
      | HOME_TURN \<Rightarrow> state_HOME_TURN c robot_pos robot_dir state_changed (time_pid1 inp)
      | HOME_STRAIGHT \<Rightarrow>
          state_HOME_STRAIGHT cfg c robot_pos robot_dir state_changed loop_time
            (time_pid1 inp) (time_pid2 inp)
      | BACK_OFF \<Rightarrow> state_BACK_OFF c)"

text \<open>
  The body of \<^verbatim>\<open>if game_on and robot_alive:\<close>: push the histories, run the branch of the
  state, limit and round the speeds, hand them to the motors.
\<close>

definition alive_pass ::
  "config \<Rightarrow> ctx \<Rightarrow> snapshot \<Rightarrow> point \<Rightarrow> real \<Rightarrow> bool \<Rightarrow> real \<Rightarrow> tick_input
     \<Rightarrow> py_error + (ctx \<times> command list)" where
  "alive_pass cfg c gs robot_pos robot_dir state_changed loop_time inp =
     (case push_hist (robot_dir_hist c) (target_angle c) of
        Inl e \<Rightarrow> Inl e
      | Inr dir_hist \<Rightarrow>
          (case push_hist (robot_dist_hist c) (Num (target_dist c)) of
             Inl e \<Rightarrow> Inl e
           | Inr dist_hist \<Rightarrow>
               (case state_branch cfg
                       (c \<lparr> robot_dir_hist := dir_hist, robot_dist_hist := dist_hist \<rparr>)
                       gs robot_pos robot_dir state_changed loop_time inp of
                  Inl e \<Rightarrow> Inl e
                | Inr (c', raw_right, raw_left, cmds) \<Rightarrow>
                    (let sr = limit_speed raw_right;
                         sl = limit_speed raw_left
                     in Inr (c' \<lparr> speed_right := sr, speed_left := sl \<rparr>,
                             cmds @ [run_forever motor_right (- sr),
                                     run_forever motor_left (- sl)])))))"

text \<open>
  One pass of the main loop (the button is not pressed). \<^verbatim>\<open>state_old = state\<close> stands
  before the request, so it is executed in every pass, also in one that does nothing else.
\<close>

definition tick :: "config \<Rightarrow> ctx \<Rightarrow> tick_input \<Rightarrow> py_error + (ctx \<times> command list)" where
  "tick cfg c0 inp =
     (let loop_time = time_now inp - t_old c0;
          state_changed = (state_old c0 \<noteq> Some (state c0));
          c = c0 \<lparr> t_old := time_now inp, state_old := Some (state c0) \<rparr>
      in case game_state inp of
           None \<Rightarrow> Inr (c, [])
         | Some gs \<Rightarrow>
             (case find_robot (robots gs) None None of
                Inl e \<Rightarrow> Inl e
              | Inr (Some robot_pos, Some robot_dir) \<Rightarrow>
                  if gameOn gs
                  then alive_pass cfg c gs robot_pos robot_dir state_changed loop_time inp
                  else Inr (c, [stop_brake motor_left, stop_brake motor_right])
              | Inr _ \<Rightarrow> Inr (c, [stop_brake motor_left, stop_brake motor_right])))"

text \<open>
  \<open>robot_alive\<close> of the loop, and the condition \<^verbatim>\<open>game_on and robot_alive\<close>, as predicates of
  the reading.
\<close>

definition robot_alive :: "snapshot \<Rightarrow> bool" where
  "robot_alive gs =
     (case find_robot (robots gs) None None of
        Inr (Some robot_pos, Some robot_dir) \<Rightarrow> True
      | _ \<Rightarrow> False)"

text \<open>Consecutive passes of the loop; an exception ends the run.\<close>

fun run :: "config \<Rightarrow> ctx \<Rightarrow> tick_input list \<Rightarrow> py_error + ctx" where
  "run cfg c [] = Inr c"
| "run cfg c (inp # rest) =
     (case tick cfg c inp of
        Inl e \<Rightarrow> Inl e
      | Inr (c', cmds) \<Rightarrow> run cfg c' rest)"

section \<open>Predicates used in the statements\<close>

text \<open>An apple the selector may return: a good one whose id is not the excluded id.\<close>

definition eligible :: "int \<Rightarrow> apple \<Rightarrow> bool" where
  "eligible closest_id apple = (a_type apple = ''appleGood'' \<and> a_id apple \<noteq> closest_id)"

text \<open>
  \<open>selected pos cid l r\<close>: \<open>r\<close> is the right answer of the selector on the list \<open>l\<close>. It is
  \<open>None\<close> when \<open>l\<close> has no eligible apple. Otherwise it is an eligible apple at some position
  of \<open>l\<close>, strictly closer to \<open>pos\<close> than every eligible apple before that position and at
  least as close as every eligible apple after it.
\<close>

definition selected :: "point \<Rightarrow> int \<Rightarrow> apple list \<Rightarrow> apple option \<Rightarrow> bool" where
  "selected pos cid l r =
     (case r of
        None \<Rightarrow> (\<forall>b \<in> set l. \<not> eligible cid b)
      | Some a \<Rightarrow>
          eligible cid a \<and>
          (\<exists>pre post. l = pre @ a # post
             \<and> (\<forall>b \<in> set pre. eligible cid b \<longrightarrow>
                   get_distance pos (a_position a) < get_distance pos (a_position b))
             \<and> (\<forall>b \<in> set post. eligible cid b \<longrightarrow>
                   get_distance pos (a_position a) \<le> get_distance pos (a_position b))))"

text \<open>The value of \<^verbatim>\<open>min_dist\<close> that belongs to a value of \<^verbatim>\<open>min_apple\<close>.\<close>

definition dist_of :: "point \<Rightarrow> apple option \<Rightarrow> efloat" where
  "dist_of pos r = (case r of None \<Rightarrow> PInf | Some a \<Rightarrow> Num (get_distance pos (a_position a)))"

section \<open>The selections of a run\<close>

text \<open>
  The apple that the \<^verbatim>\<open>GET_APPLE\<close> branch gets from the selector in a pass that starts
  with the variables \<open>c\<close>; \<open>None\<close> when the pass does not run that branch (another state, no
  reading, game off, robot not seen) or the selector finds no apple.
\<close>

definition selection :: "ctx \<Rightarrow> tick_input \<Rightarrow> apple option" where
  "selection c inp =
     (if state c = GET_APPLE
      then (case game_state inp of
              None \<Rightarrow> None
            | Some gs \<Rightarrow>
                (case find_robot (robots gs) None None of
                   Inr (Some robot_pos, Some robot_dir) \<Rightarrow>
                     if gameOn gs
                     then get_closest_good_apple gs robot_pos (closest_apple_id_old c)
                     else None
                 | _ \<Rightarrow> None))
      else None)"

text \<open>
  The ids of the apples selected in the passes of a run, in order; the run ends at the
  first pass that raises.
\<close>

fun selections :: "config \<Rightarrow> ctx \<Rightarrow> tick_input list \<Rightarrow> int list" where
  "selections cfg c [] = []"
| "selections cfg c (inp # rest) =
     (case tick cfg c inp of
        Inl e \<Rightarrow> []
      | Inr (c', cmds) \<Rightarrow>
          (case selection c inp of None \<Rightarrow> [] | Some a \<Rightarrow> [a_id a])
          @ selections cfg c' rest)"

section \<open>The passes near the target\<close>

text \<open>
  The position and the direction of the own robot in a pass that runs the state machine;
  \<open>None\<close> in a pass that does not (no reading, game off, robot not seen).
\<close>

definition pass_robot :: "tick_input \<Rightarrow> (point \<times> real) option" where
  "pass_robot inp =
     (case game_state inp of
        None \<Rightarrow> None
      | Some gs \<Rightarrow>
          (case find_robot (robots gs) None None of
             Inr (Some robot_pos, Some robot_dir) \<Rightarrow>
               if gameOn gs then Some (robot_pos, robot_dir) else None
           | _ \<Rightarrow> None))"

text \<open>
  \<^verbatim>\<open>robot_near_target\<close> as a drive-straight branch computes it in the pass: the distance
  from the robot to the target is below \<^verbatim>\<open>DIST_NEAR\<close>.
\<close>

definition near_target :: "ctx \<Rightarrow> tick_input \<Rightarrow> bool" where
  "near_target c inp =
     (case (pass_robot inp, target c) of
        (Some (robot_pos, robot_dir), Some tgt) \<Rightarrow> get_distance robot_pos tgt < DIST_NEAR
      | _ \<Rightarrow> False)"

text \<open>
  The test of arrival of the drive-straight branches, as the pass evaluates it: the
  distance history after the push is within tolerance or, in \<^verbatim>\<open>HOME_STRAIGHT\<close> only, the
  robot is inside the home zone of its team.
\<close>

definition arrival :: "config \<Rightarrow> ctx \<Rightarrow> tick_input \<Rightarrow> bool" where
  "arrival cfg c inp =
     (case pass_robot inp of
        None \<Rightarrow> False
      | Some (robot_pos, robot_dir) \<Rightarrow>
          (case push_hist (robot_dist_hist c) (Num (target_dist c)) of
             Inl e \<Rightarrow> False
           | Inr hist \<Rightarrow>
               dist_reached hist
               \<or> (state c = HOME_STRAIGHT
                  \<and> (if team_my_tag cfg = ''team1'' then in_team_one robot_pos
                      else in_team_two robot_pos))))"

text \<open>
  A run of passes in each of which the robot is near the target and arrival is not
  detected; every pass but the last completes.
\<close>

fun near_passes :: "config \<Rightarrow> ctx \<Rightarrow> tick_input list \<Rightarrow> bool" where
  "near_passes cfg c [] = True"
| "near_passes cfg c (inp # rest) =
     (near_target c inp \<and> \<not> arrival cfg c inp
      \<and> (rest = [] \<or> (case tick cfg c inp of
                          Inl e \<Rightarrow> False
                        | Inr (c', cmds) \<Rightarrow> near_passes cfg c' rest)))"

text \<open>The states after the passes of a run, up to the first pass that raises.\<close>

fun states :: "config \<Rightarrow> ctx \<Rightarrow> tick_input list \<Rightarrow> State list" where
  "states cfg c [] = []"
| "states cfg c (inp # rest) =
     (case tick cfg c inp of
        Inl e \<Rightarrow> []
      | Inr (c', cmds) \<Rightarrow> state c' # states cfg c' rest)"

text \<open>The turn state that a drive-straight state falls back to.\<close>

fun turn_of :: "State \<Rightarrow> State" where
  "turn_of GET_STRAIGHT = GET_TURN"
| "turn_of HOME_STRAIGHT = HOME_TURN"
| "turn_of s = s"

text \<open>
  The countdown is armed for the deadline \<open>D\<close> (a clock reading): either the next pass
  sets it (it sees the state change, or near-target was false in the pass before) and
  \<open>D\<close> is \<^verbatim>\<open>TIMER_NEAR_TARGET\<close> after the last pass, or the timer holds what is left until \<open>D\<close>.
\<close>

definition armed :: "ctx \<Rightarrow> real \<Rightarrow> bool" where
  "armed c D =
     (robot_near_target_old c \<noteq> None
      \<and> (if state_old c \<noteq> Some (state c) \<or> robot_near_target_old c = Some False
         then D = t_old c + TIMER_NEAR_TARGET
         else timer_near_target c = Some (D - t_old c)))"

section \<open>Example data\<close>

text \<open>
  Concrete inputs for the examples below: a configuration of team 1, a reading with the own
  robot at a position and heading and a list of apples, a pass whose clock readings all
  equal \<open>t\<close>, and a good apple.
\<close>

definition example_config :: config where
  "example_config = \<lparr> team_my_tag = ''team1'', home = \<lparr>pt_x = 270, pt_y = 1010\<rparr> \<rparr>"

text \<open>
  A configuration of team 1 whose home point lies 330 mm to the right of the middle of the
  home zone that \<^verbatim>\<open>in_team_one\<close> tests, so that a robot can be near the home point and
  outside the zone.
\<close>

definition offset_config :: config where
  "offset_config = \<lparr> team_my_tag = ''team1'', home = \<lparr>pt_x = 600, pt_y = 1010\<rparr> \<rparr>"

definition reading :: "point \<Rightarrow> real \<Rightarrow> apple list \<Rightarrow> snapshot" where
  "reading pos dir as =
     \<lparr> gameOn = True, timeLeft = 100,
       robots = [\<lparr> r_id = 35, r_position = Val [pt_x pos, pt_y pos],
                   r_direction = Val dir \<rparr>],
       apples = as \<rparr>"

definition pass_input :: "real \<Rightarrow> snapshot option \<Rightarrow> tick_input" where
  "pass_input t gs = \<lparr> time_now = t, time_pid1 = t, time_pid2 = t, game_state = gs \<rparr>"

definition good_apple :: "int \<Rightarrow> real \<Rightarrow> real \<Rightarrow> apple" where
  "good_apple i u v = \<lparr> a_id = i, a_type = ''appleGood'', a_position = \<lparr>pt_x = u, pt_y = v\<rparr> \<rparr>"

section \<open>The first update of a regulator\<close>

text \<open>
  C5. On a regulator just constructed, and on one just reset without arguments, the first
  \<open>update\<close> returns \<open>kp * (setpoint - measurement)\<close> and stores integral 0, the error
  \<open>setpoint - measurement\<close> and the current time. A reset without arguments keeps the
  setpoint, the gains and the integral limit, whatever state the regulator was in.
\<close>

theorem first_update:
  "update (PID_init sp kp ki kd il) m now =
     Inr (kp * (sp - m),
          \<lparr> p_setpoint = sp, p_kp = kp, p_ki = ki, p_kd = kd, p_integral_limit = il,
            p_error = Some (sp - m), p_time = Some now, p_integral = Some 0,
            p_value = Some m \<rparr>)
   \<and> update (reset self None None None None None) m now =
     Inr (p_kp self * (p_setpoint self - m),
          \<lparr> p_setpoint = p_setpoint self, p_kp = p_kp self, p_ki = p_ki self,
            p_kd = p_kd self, p_integral_limit = p_integral_limit self,
            p_error = Some (p_setpoint self - m), p_time = Some now,
            p_integral = Some 0, p_value = Some m \<rparr>)"
  by (simp add: update_def PID_init_def reset_def Let_def)

section \<open>The derivative term and the elapsed time\<close>

text \<open>
  C3, as the claim states it, fails: the regulator with the gains of \<open>PID_turn\<close>, updated
  twice at the same clock reading, raises ZeroDivisionError in the second call.
\<close>

theorem update_dt_zero_counterexample:
  "(case update (PID_init 0 (14 / 10) (Some 0) (Some (53 / 100)) (Some 100)) 10 5 of
      Inl e \<Rightarrow> False
    | Inr (u, self) \<Rightarrow> update self 20 5 = Inl ZeroDivisionError)"
  by (simp add: update_def PID_init_def update_integral_def update_derivative_def Let_def)

text \<open>
  C3, amended. On a regulator that has been updated before (value, time and error stored,
  and the integral stored when \<open>ki\<close> is configured) and has \<open>kd\<close> configured, \<open>update\<close>
  raises ZeroDivisionError exactly when the elapsed time is 0; for every other elapsed time
  it returns \<open>p + i + d\<close> with \<open>d = kd * (error - last error) / dt\<close> and stores the new
  time, value, integral and error.
\<close>

theorem update_derivative_dt:
  assumes "p_value self = Some v" and "p_time self = Some t0"
    and "p_kd self = Some kd" and "p_error self = Some e0"
    and "p_ki self = None \<or> p_integral self \<noteq> None"
  shows "((update self m now = Inl ZeroDivisionError) = (now = t0))
    \<and> (now \<noteq> t0 \<longrightarrow>
         (\<exists>i integral.
            update_integral self (p_setpoint self - m) (now - t0) = Inr (i, integral)
            \<and> update self m now =
                Inr (p_kp self * (p_setpoint self - m) + i
                       + kd * ((p_setpoint self - m) - e0) / (now - t0),
                     self \<lparr> p_time := Some now, p_value := Some m,
                            p_integral := integral,
                            p_error := Some (p_setpoint self - m) \<rparr>)))"
  using assms
  by (auto simp add: update_def update_integral_def update_derivative_def Let_def
      split: option.splits)

theorem update_derivative_dt_witness:
  "update \<lparr> p_setpoint = 0, p_kp = 2, p_ki = None, p_kd = Some 3,
            p_integral_limit = None, p_error = Some (- 10), p_time = Some 5,
            p_integral = Some 0, p_value = Some 10 \<rparr> 20 5 = Inl ZeroDivisionError
   \<and> update \<lparr> p_setpoint = 0, p_kp = 2, p_ki = None, p_kd = Some 3,
              p_integral_limit = None, p_error = Some (- 10), p_time = Some 5,
              p_integral = Some 0, p_value = Some 10 \<rparr> 20 7 =
       Inr (- 55,
            \<lparr> p_setpoint = 0, p_kp = 2, p_ki = None, p_kd = Some 3,
              p_integral_limit = None, p_error = Some (- 20), p_time = Some 7,
              p_integral = Some 0, p_value = Some 20 \<rparr>)"
proof -
  let ?P = "\<lparr> p_setpoint = 0, p_kp = 2, p_ki = None, p_kd = Some 3,
              p_integral_limit = None, p_error = Some (- 10), p_time = Some 5,
              p_integral = Some 0, p_value = Some (10::real) \<rparr>"
  have h: "p_value ?P = Some 10" "p_time ?P = Some 5" "p_kd ?P = Some 3"
    "p_error ?P = Some (- 10)" "p_ki ?P = None \<or> p_integral ?P \<noteq> None"
    by simp_all
  from update_derivative_dt[OF h, of 20 5] have a: "update ?P 20 5 = Inl ZeroDivisionError"
    by simp
  from update_derivative_dt[OF h, of 20 7]
  have b: "update ?P 20 7 =
       Inr (- 55,
            \<lparr> p_setpoint = 0, p_kp = 2, p_ki = None, p_kd = Some 3,
              p_integral_limit = None, p_error = Some (- 20), p_time = Some 7,
              p_integral = Some 0, p_value = Some 20 \<rparr>)"
    by (simp add: update_integral_def)
  from a b show ?thesis by simp
qed

section \<open>The relative bearing\<close>

lemma atan2_bounds: "- pi < atan2 v u \<and> atan2 v u \<le> pi"
proof -
  have a: "- (pi / 2) < arctan (v / u)" "arctan (v / u) < pi / 2"
    by (rule arctan_lbound, rule arctan_ubound)
  have b: "u < 0 \<Longrightarrow> 0 \<le> v \<Longrightarrow> arctan (v / u) \<le> 0"
    by (simp add: divide_nonneg_neg)
  have c: "u < 0 \<Longrightarrow> v < 0 \<Longrightarrow> 0 < arctan (v / u)"
    by (simp add: divide_neg_neg)
  have p: "0 < pi" by simp
  show ?thesis
    unfolding atan2_def using a b c p by (auto simp: not_less)
qed

lemma degrees_atan2: "- 180 < degrees (atan2 v u) \<and> degrees (atan2 v u) \<le> 180"
proof -
  have p: "0 < pi" by simp
  from atan2_bounds[of v u] have "- pi < atan2 v u" "atan2 v u \<le> pi" by simp_all
  then have "- pi * 180 < atan2 v u * 180" "atan2 v u * 180 \<le> pi * 180" by simp_all
  then show ?thesis unfolding degrees_def using p
    by (simp add: pos_less_divide_eq pos_divide_le_eq mult.commute)
qed

text \<open>
  C4, as the claim states it, fails. With the target due east and the heading 180 the
  result is -180, which is not in the half-open interval; with the heading 1000 the one
  correction leaves -640.
\<close>

theorem get_angle_range_counterexample:
  "get_angle \<lparr>pt_x = 0, pt_y = 0\<rparr> 180 \<lparr>pt_x = 1, pt_y = 0\<rparr> = - 180
   \<and> \<not> (- 180 < get_angle \<lparr>pt_x = 0, pt_y = 0\<rparr> 180 \<lparr>pt_x = 1, pt_y = 0\<rparr>)
   \<and> get_angle \<lparr>pt_x = 0, pt_y = 0\<rparr> 1000 \<lparr>pt_x = 1, pt_y = 0\<rparr> = - 640"
  by (simp add: get_angle_def atan2_def degrees_def Let_def)

text \<open>
  C4, amended. For a heading between -360 and 360 the result lies in the closed interval
  from -180 to 180, and it is the bearing in degrees minus the heading, less 360 when that
  difference is above 180 and plus 360 when it is below -180.
\<close>

theorem get_angle_range:
  assumes "- 360 \<le> a1" and "a1 \<le> 360"
  shows "- 180 \<le> get_angle p1 a1 p2 \<and> get_angle p1 a1 p2 \<le> 180
    \<and> get_angle p1 a1 p2 =
        (let d = degrees (atan2 (pt_y p2 - pt_y p1) (pt_x p2 - pt_x p1)) - a1
         in if 180 < d then d - 360 else if d < - 180 then d + 360 else d)"
  using assms degrees_atan2[of "pt_y p2 - pt_y p1" "pt_x p2 - pt_x p1"]
  by (auto simp: get_angle_def Let_def)

theorem get_angle_range_witness:
  "- 180 \<le> get_angle \<lparr>pt_x = 0, pt_y = 0\<rparr> 180 \<lparr>pt_x = 1, pt_y = 0\<rparr>
   \<and> get_angle \<lparr>pt_x = 0, pt_y = 0\<rparr> 180 \<lparr>pt_x = 1, pt_y = 0\<rparr> \<le> 180"
proof -
  have h: "- 360 \<le> (180::real)" "(180::real) \<le> 360" by simp_all
  from get_angle_range[OF h, of "\<lparr>pt_x = 0, pt_y = 0\<rparr>" "\<lparr>pt_x = 1, pt_y = 0\<rparr>"]
  show ?thesis by simp
qed




section \<open>What the selector returns\<close>

lemma selected_skip:
  "selected pos cid l r \<Longrightarrow> \<not> eligible cid x \<Longrightarrow> selected pos cid (l @ [x]) r"
  unfolding selected_def
  apply (cases r)
   apply simp
  apply clarsimp
  subgoal for a pre post
    by (rule exI[of _ pre], rule exI[of _ "post @ [x]"]) auto
  done

lemma selected_keep:
  "selected pos cid l (Some a) \<Longrightarrow>
   \<not> get_distance pos (a_position x) < get_distance pos (a_position a) \<Longrightarrow>
   selected pos cid (l @ [x]) (Some a)"
  unfolding selected_def
  apply clarsimp
  subgoal for pre post
    by (rule exI[of _ pre], rule exI[of _ "post @ [x]"]) auto
  done

lemma selected_take:
  assumes "selected pos cid l r" and "eligible cid x"
    and "ef_less (Num (get_distance pos (a_position x))) (dist_of pos r)"
  shows "selected pos cid (l @ [x]) (Some x)"
proof -
  have all: "\<forall>b \<in> set l. eligible cid b \<longrightarrow>
               get_distance pos (a_position x) < get_distance pos (a_position b)"
  proof (cases r)
    case None
    with assms(1) show ?thesis by (simp add: selected_def)
  next
    case (Some a)
    with assms(1) obtain pre post where l: "l = pre @ a # post"
      and pre: "\<forall>b \<in> set pre. eligible cid b \<longrightarrow>
                  get_distance pos (a_position a) < get_distance pos (a_position b)"
      and post: "\<forall>b \<in> set post. eligible cid b \<longrightarrow>
                  get_distance pos (a_position a) \<le> get_distance pos (a_position b)"
      unfolding selected_def by auto
    from Some assms(3)
    have lt: "get_distance pos (a_position x) < get_distance pos (a_position a)"
      by (simp add: dist_of_def)
    show ?thesis
    proof (intro ballI impI)
      fix b assume b: "b \<in> set l" and e: "eligible cid b"
      from b l consider "b \<in> set pre" | "b = a" | "b \<in> set post" by auto
      then show "get_distance pos (a_position x) < get_distance pos (a_position b)"
      proof cases
        case 1
        with pre e have "get_distance pos (a_position a) < get_distance pos (a_position b)"
          by blast
        with lt show ?thesis by linarith
      next
        case 2
        with lt show ?thesis by simp
      next
        case 3
        with post e have "get_distance pos (a_position a) \<le> get_distance pos (a_position b)"
          by blast
        with lt show ?thesis by linarith
      qed
    qed
  qed
  have "\<exists>pre post. l @ [x] = pre @ x # post
      \<and> (\<forall>b \<in> set pre. eligible cid b \<longrightarrow>
            get_distance pos (a_position x) < get_distance pos (a_position b))
      \<and> (\<forall>b \<in> set post. eligible cid b \<longrightarrow>
            get_distance pos (a_position x) \<le> get_distance pos (a_position b))"
    using all by (intro exI[of _ l] exI[of _ "[]"]) simp
  with assms(2) show ?thesis
    unfolding selected_def by simp
qed

lemma closest_loop_skip:
  "\<not> eligible cid x \<Longrightarrow>
   closest_loop pos cid (x # xs) ma md = closest_loop pos cid xs ma md"
  by (auto simp: eligible_def)

lemma closest_loop_take:
  "eligible cid x \<Longrightarrow> ef_less (Num (get_distance pos (a_position x))) md \<Longrightarrow>
   closest_loop pos cid (x # xs) ma md =
   closest_loop pos cid xs (Some x) (Num (get_distance pos (a_position x)))"
  by (auto simp: eligible_def Let_def)

lemma closest_loop_keep:
  "eligible cid x \<Longrightarrow> \<not> ef_less (Num (get_distance pos (a_position x))) md \<Longrightarrow>
   closest_loop pos cid (x # xs) ma md = closest_loop pos cid xs ma md"
  by (auto simp: eligible_def Let_def)

lemma closest_loop_selected:
  "selected pos cid pre ma \<Longrightarrow> md = dist_of pos ma \<Longrightarrow>
   selected pos cid (pre @ xs) (closest_loop pos cid xs ma md)"
proof (induction xs arbitrary: pre ma md)
  case Nil
  then show ?case by simp
next
  case (Cons x xs)
  have app: "pre @ x # xs = (pre @ [x]) @ xs" by simp
  show ?case
  proof (cases "eligible cid x")
    case False
    have "selected pos cid ((pre @ [x]) @ xs) (closest_loop pos cid xs ma md)"
      using selected_skip[OF Cons.prems(1) False] Cons.prems(2) by (rule Cons.IH)
    then show ?thesis unfolding app closest_loop_skip[OF False] .
  next
    case True
    show ?thesis
    proof (cases "ef_less (Num (get_distance pos (a_position x))) md")
      case lt: True
      have "selected pos cid (pre @ [x]) (Some x)"
        using selected_take[OF Cons.prems(1) True] lt Cons.prems(2) by simp
      then have "selected pos cid ((pre @ [x]) @ xs)
                   (closest_loop pos cid xs (Some x) (Num (get_distance pos (a_position x))))"
        by (rule Cons.IH) (simp add: dist_of_def)
      then show ?thesis unfolding app closest_loop_take[OF True lt] .
    next
      case ge: False
      have s: "selected pos cid (pre @ [x]) ma"
      proof (cases ma)
        case None
        with ge Cons.prems(2) show ?thesis by (simp add: dist_of_def)
      next
        case (Some a)
        with ge Cons.prems(2)
        have "\<not> get_distance pos (a_position x) < get_distance pos (a_position a)"
          by (simp add: dist_of_def)
        with Some Cons.prems(1) show ?thesis by (simp add: selected_keep)
      qed
      have "selected pos cid ((pre @ [x]) @ xs) (closest_loop pos cid xs ma md)"
        using s Cons.prems(2) by (rule Cons.IH)
      then show ?thesis unfolding app closest_loop_keep[OF True ge] .
    qed
  qed
qed

lemma get_closest_good_apple_selected:
  "selected pos cid (apples gs) (get_closest_good_apple gs pos cid)"
proof -
  have "selected pos cid ([] @ apples gs) (closest_loop pos cid (apples gs) None PInf)"
    by (rule closest_loop_selected) (simp_all add: selected_def dist_of_def)
  then show ?thesis by (simp add: get_closest_good_apple_def)
qed

text \<open>
  C8. The selector returns \<open>None\<close> exactly when no apple of the reading is good with an id
  other than the excluded one. Otherwise it returns such an apple, standing at a position
  of the list where it is strictly closer to the origin than every such apple before it
  and at least as close as every such apple after it: the closest one, and among equally
  close ones the first.
\<close>

theorem selector_first_closest:
  "(case get_closest_good_apple gs pos cid of
      None \<Rightarrow> (\<forall>b \<in> set (apples gs). \<not> (a_type b = ''appleGood'' \<and> a_id b \<noteq> cid))
    | Some a \<Rightarrow>
        a_type a = ''appleGood'' \<and> a_id a \<noteq> cid \<and>
        (\<exists>pre post. apples gs = pre @ a # post
           \<and> (\<forall>b \<in> set pre. a_type b = ''appleGood'' \<and> a_id b \<noteq> cid \<longrightarrow>
                 get_distance pos (a_position a) < get_distance pos (a_position b))
           \<and> (\<forall>b \<in> set post. a_type b = ''appleGood'' \<and> a_id b \<noteq> cid \<longrightarrow>
                 get_distance pos (a_position a) \<le> get_distance pos (a_position b))))"
  using get_closest_good_apple_selected[of pos cid gs]
  by (simp add: selected_def eligible_def split: option.splits)

theorem selector_first_closest_witness:
  "get_closest_good_apple
     \<lparr> gameOn = True, timeLeft = 60, robots = [],
       apples = [\<lparr> a_id = 1, a_type = ''appleBad'', a_position = \<lparr>pt_x = 1, pt_y = 0\<rparr> \<rparr>,
                 \<lparr> a_id = 2, a_type = ''appleGood'', a_position = \<lparr>pt_x = 3, pt_y = 0\<rparr> \<rparr>,
                 \<lparr> a_id = 3, a_type = ''appleGood'', a_position = \<lparr>pt_x = 2, pt_y = 0\<rparr> \<rparr>,
                 \<lparr> a_id = 4, a_type = ''appleGood'', a_position = \<lparr>pt_x = 0, pt_y = 2\<rparr> \<rparr>,
                 \<lparr> a_id = 5, a_type = ''appleGood'', a_position = \<lparr>pt_x = 1, pt_y = 0\<rparr> \<rparr>] \<rparr>
     \<lparr>pt_x = 0, pt_y = 0\<rparr> 5
   = Some \<lparr> a_id = 3, a_type = ''appleGood'', a_position = \<lparr>pt_x = 2, pt_y = 0\<rparr> \<rparr>"
  using selector_first_closest[where gs =
     "\<lparr> gameOn = True, timeLeft = 60, robots = [],
       apples = [\<lparr> a_id = 1, a_type = ''appleBad'', a_position = \<lparr>pt_x = 1, pt_y = 0\<rparr> \<rparr>,
                 \<lparr> a_id = 2, a_type = ''appleGood'', a_position = \<lparr>pt_x = 3, pt_y = 0\<rparr> \<rparr>,
                 \<lparr> a_id = 3, a_type = ''appleGood'', a_position = \<lparr>pt_x = 2, pt_y = 0\<rparr> \<rparr>,
                 \<lparr> a_id = 4, a_type = ''appleGood'', a_position = \<lparr>pt_x = 0, pt_y = 2\<rparr> \<rparr>,
                 \<lparr> a_id = 5, a_type = ''appleGood'', a_position = \<lparr>pt_x = 1, pt_y = 0\<rparr> \<rparr>] \<rparr>"
     and pos = "\<lparr>pt_x = 0, pt_y = 0\<rparr>" and cid = 5]
  by (simp add: get_closest_good_apple_def get_distance_def Let_def)

section \<open>The limit on the wheel speeds\<close>

lemma py_round_bounds:
  assumes "of_int lo \<le> v" and "v \<le> of_int hi"
  shows "lo \<le> py_round v \<and> py_round v \<le> hi"
proof -
  have f1: "lo \<le> \<lfloor>v\<rfloor>" using assms(1) by (simp add: le_floor_iff)
  have f2: "\<lfloor>v\<rfloor> \<le> hi" using floor_mono[OF assms(2)] by simp
  have f3: "v - of_int \<lfloor>v\<rfloor> \<ge> 1 / 2 \<Longrightarrow> \<lfloor>v\<rfloor> + 1 \<le> hi"
  proof -
    assume "v - of_int \<lfloor>v\<rfloor> \<ge> 1 / 2"
    then have "of_int \<lfloor>v\<rfloor> < (of_int hi :: real)" using assms(2) by linarith
    then show ?thesis by simp
  qed
  show ?thesis
    unfolding py_round_def Let_def using f1 f2 f3 by (auto simp: not_less)
qed

lemma limit_speed_range: "- 800 \<le> limit_speed v \<and> limit_speed v \<le> 800"
proof -
  define w where "w = min (max v (- SPEED_MAX)) SPEED_MAX"
  have "of_int (- 800) \<le> w" "w \<le> of_int 800"
    unfolding w_def SPEED_MAX_def by simp_all
  then have "- 800 \<le> py_round w \<and> py_round w \<le> 800"
    by (rule py_round_bounds)
  then show ?thesis unfolding limit_speed_def w_def .
qed

section \<open>One pass of the loop\<close>

text \<open>Facts for evaluating the examples.\<close>

lemma atan2_up: "0 < v \<Longrightarrow> atan2 v 0 = pi / 2"
  by (simp add: atan2_def)

lemmas ex_defs = example_config_def reading_def pass_input_def good_apple_def Point_def
  initial_context_def PID_init_def ROBOT_ID_def HIST_QUEUE_LENGTH_def
  DIST_EPS_def DIR_EPS_def DIST_NEAR_def TIMER_NEAR_TARGET_def SPEED_MAX_def SPEED_BASE_MAX_def

lemmas step_defs = tick_def alive_pass_def state_branch_def push_hist_def
  state_GET_APPLE_def state_GET_TURN_def state_GET_STRAIGHT_def state_HOME_def
  state_HOME_TURN_def state_HOME_STRAIGHT_def state_BACK_OFF_def
  get_closest_good_apple_def near_target_timer_def dir_reached_def dist_reached_def
  limit_speed_def py_round_def reset_def update_def update_integral_def update_derivative_def
  get_angle_def get_distance_def degrees_def claws_open_def claws_close_def

lemma robot_alive_find:
  "robot_alive gs \<Longrightarrow> \<exists>pos dir. find_robot (robots gs) None None = Inr (Some pos, Some dir)"
  by (auto simp: robot_alive_def split: sum.splits prod.splits option.splits)

lemma tick_alive:
  assumes "game_state inp = Some gs" and "gameOn gs"
    and "find_robot (robots gs) None None = Inr (Some pos, Some dir)"
  shows "tick cfg c inp =
         alive_pass cfg (c \<lparr> t_old := time_now inp, state_old := Some (state c) \<rparr>) gs pos dir
           (state_old c \<noteq> Some (state c)) (time_now inp - t_old c) inp"
  using assms by (simp add: tick_def Let_def)

lemma tick_not_alive:
  assumes "game_state inp = Some gs" and "\<not> (gameOn gs \<and> robot_alive gs)"
  shows "tick cfg c inp =
         (case find_robot (robots gs) None None of
            Inl e \<Rightarrow> Inl e
          | Inr found \<Rightarrow>
              Inr (c \<lparr> t_old := time_now inp, state_old := Some (state c) \<rparr>,
                   [stop_brake motor_left, stop_brake motor_right]))"
  using assms
  by (auto simp: tick_def robot_alive_def Let_def
      split: sum.splits prod.splits option.splits)

lemma alive_pass_result:
  assumes "alive_pass cfg c gs pos dir sc lt inp = Inr (c', cmds)"
  shows "\<exists>dh sh c'' r l pre.
           push_hist (robot_dir_hist c) (target_angle c) = Inr dh
         \<and> push_hist (robot_dist_hist c) (Num (target_dist c)) = Inr sh
         \<and> state_branch cfg (c \<lparr> robot_dir_hist := dh, robot_dist_hist := sh \<rparr>)
               gs pos dir sc lt inp = Inr (c'', r, l, pre)
         \<and> c' = c'' \<lparr> speed_right := limit_speed r, speed_left := limit_speed l \<rparr>
         \<and> cmds = pre @ [run_forever motor_right (- limit_speed r),
                         run_forever motor_left (- limit_speed l)]"
  using assms
  by (auto simp: alive_pass_def Let_def split: sum.splits prod.splits)


text \<open>
  C1. In a pass with a reading in which the game is on and the own robot is seen, when the
  pass completes, the last two motor commands are \<^verbatim>\<open>run_forever\<close> of the right and of the
  left motor with the negated values of \<^verbatim>\<open>speed_right\<close> and \<^verbatim>\<open>speed_left\<close>, and both
  values are integers between -800 and 800. This holds for every value of the variables
  before the pass, so for every state and for regulators with any gains and any stored
  values.
\<close>

theorem tick_speed_limit:
  assumes "tick cfg c inp = Inr (c', cmds)"
    and "game_state inp = Some gs" and "gameOn gs" and "robot_alive gs"
  shows "(\<exists>pre. cmds = pre @ [run_forever motor_right (- speed_right c'),
                               run_forever motor_left (- speed_left c')])
       \<and> - 800 \<le> speed_right c' \<and> speed_right c' \<le> 800
       \<and> - 800 \<le> speed_left c' \<and> speed_left c' \<le> 800"
proof -
  from assms(4) obtain pos dir where
    f: "find_robot (robots gs) None None = Inr (Some pos, Some dir)"
    using robot_alive_find by blast
  from assms(1) tick_alive[OF assms(2,3) f, of cfg c]
  have "alive_pass cfg (c \<lparr> t_old := time_now inp, state_old := Some (state c) \<rparr>) gs pos dir
           (state_old c \<noteq> Some (state c)) (time_now inp - t_old c) inp = Inr (c', cmds)"
    by simp
  from alive_pass_result[OF this] obtain c'' r l pre where
    c': "c' = c'' \<lparr> speed_right := limit_speed r, speed_left := limit_speed l \<rparr>"
    and cmds: "cmds = pre @ [run_forever motor_right (- limit_speed r),
                         run_forever motor_left (- limit_speed l)]"
    by blast
  from c' cmds limit_speed_range[of r] limit_speed_range[of l]
  show ?thesis by simp
qed

theorem tick_speed_limit_witness:
  "(case run example_config (initial_context 0)
           [pass_input 1 (Some (reading \<lparr>pt_x = 0, pt_y = 0\<rparr> 0 [good_apple 1 0 300])),
            pass_input 2 (Some (reading \<lparr>pt_x = 0, pt_y = 0\<rparr> 0 [good_apple 1 0 300]))] of
      Inl e \<Rightarrow> False
    | Inr c2 \<Rightarrow>
        (case tick example_config c2
                (pass_input (2001 / 1000)
                   (Some (reading \<lparr>pt_x = 0, pt_y = 0\<rparr> 10 [good_apple 1 0 300]))) of
           Inl e \<Rightarrow> False
         | Inr (c3, cmds) \<Rightarrow>
             speed_right c3 = - 800 \<and> speed_left c3 = 800
             \<and> cmds = [run_forever motor_right 800, run_forever motor_left (- 800)]
             \<and> - 800 \<le> speed_right c3 \<and> speed_right c3 \<le> 800
             \<and> - 800 \<le> speed_left c3 \<and> speed_left c3 \<le> 800))"
proof -
  let ?gs = "reading \<lparr>pt_x = 0, pt_y = 0\<rparr> 10 [good_apple 1 0 300]"
  let ?i3 = "pass_input (2001 / 1000) (Some ?gs)"
  define c2 where "c2 =
    (case run example_config (initial_context 0)
           [pass_input 1 (Some (reading \<lparr>pt_x = 0, pt_y = 0\<rparr> 0 [good_apple 1 0 300])),
            pass_input 2 (Some (reading \<lparr>pt_x = 0, pt_y = 0\<rparr> 0 [good_apple 1 0 300]))] of
       Inr c \<Rightarrow> c | Inl e \<Rightarrow> initial_context 0)"
  define r3 where "r3 = (case tick example_config c2 ?i3 of
       Inr r \<Rightarrow> r | Inl e \<Rightarrow> (c2, []))"
  have run2: "run example_config (initial_context 0)
           [pass_input 1 (Some (reading \<lparr>pt_x = 0, pt_y = 0\<rparr> 0 [good_apple 1 0 300])),
            pass_input 2 (Some (reading \<lparr>pt_x = 0, pt_y = 0\<rparr> 0 [good_apple 1 0 300]))]
        = Inr c2"
    unfolding c2_def
    by (simp add: ex_defs step_defs Let_def atan2_up numeral_3_eq_3)
  have t3: "tick example_config c2 ?i3 = Inr (fst r3, snd r3)"
    unfolding r3_def c2_def
    by (simp add: ex_defs step_defs Let_def atan2_up numeral_3_eq_3)
  have v: "speed_right (fst r3) = - 800 \<and> speed_left (fst r3) = 800
      \<and> snd r3 = [run_forever motor_right 800, run_forever motor_left (- 800)]"
    unfolding r3_def c2_def
    by (simp add: ex_defs step_defs Let_def atan2_up numeral_3_eq_3)
  have h: "game_state ?i3 = Some ?gs" "gameOn ?gs" "robot_alive ?gs"
    by (simp_all add: pass_input_def reading_def robot_alive_def ROBOT_ID_def Point_def)
  from tick_speed_limit[OF t3 h] v run2 t3 show ?thesis by simp
qed

section \<open>Seeking without an eligible apple\<close>

text \<open>
  In state \<^verbatim>\<open>GET_APPLE\<close>, with the game on and the robot seen, a reading without any good
  apple other than the excluded one ends the pass with TypeError: the branch subscripts
  the \<^verbatim>\<open>None\<close> that the selector returned.
\<close>

lemma seek_without_apple:
  assumes "state c = GET_APPLE"
    and "game_state inp = Some gs" and "gameOn gs" and "robot_alive gs"
    and "\<forall>a \<in> set (apples gs). \<not> eligible (closest_apple_id_old c) a"
    and "robot_dir_hist c \<noteq> []" and "robot_dist_hist c \<noteq> []"
  shows "tick cfg c inp = Inl TypeError"
proof -
  from assms(4) obtain pos dir where
    f: "find_robot (robots gs) None None = Inr (Some pos, Some dir)"
    using robot_alive_find by blast
  have "selected pos (closest_apple_id_old c) (apples gs)
          (get_closest_good_apple gs pos (closest_apple_id_old c))"
    by (rule get_closest_good_apple_selected)
  with assms(5) have n: "get_closest_good_apple gs pos (closest_apple_id_old c) = None"
    by (cases "get_closest_good_apple gs pos (closest_apple_id_old c)")
       (auto simp: selected_def)
  show ?thesis
    unfolding tick_alive[OF assms(2,3) f]
    using assms(1,6,7) n
    by (simp add: alive_pass_def push_hist_def state_branch_def state_GET_APPLE_def
        split: list.splits)
qed

text \<open>
  C2 fails on the code. From the initial state, a reading with no apple at all, and one
  with only a bad apple, end the first pass with TypeError: no speed is commanded and the
  loop does not continue.
\<close>

theorem seek_without_apple_fails:
  "tick example_config (initial_context 0)
     (pass_input 1 (Some (reading \<lparr>pt_x = 0, pt_y = 0\<rparr> 0 []))) = Inl TypeError
   \<and> tick example_config (initial_context 0)
     (pass_input 1 (Some (reading \<lparr>pt_x = 0, pt_y = 0\<rparr> 0
        [\<lparr> a_id = 7, a_type = ''appleBad'', a_position = \<lparr>pt_x = 0, pt_y = 300\<rparr> \<rparr>])))
     = Inl TypeError"
  by (simp add: ex_defs step_defs Let_def numeral_3_eq_3)

section \<open>A pass without the robot or without the game\<close>









section \<open>The excluded id\<close>

lemma GET_APPLE_id:
  "state_GET_APPLE c gs pos dir = Inr (c', r, l, pre) \<Longrightarrow>
   \<exists>a. get_closest_good_apple gs pos (closest_apple_id_old c) = Some a
     \<and> closest_apple_id_old c' = a_id a \<and> (state c' = GET_TURN \<or> state c' = HOME)"
  by (auto simp: state_GET_APPLE_def Let_def split: option.splits if_splits)

lemma HOME_id:
  "state_HOME cfg c pos dir = Inr (c', r, l, pre) \<Longrightarrow>
   closest_apple_id_old c' = closest_apple_id_old c"
  by (auto simp: state_HOME_def Let_def split: if_splits)

lemma GET_TURN_id:
  "state_GET_TURN c pos dir sc now = Inr (c', r, l, pre) \<Longrightarrow>
   closest_apple_id_old c' = closest_apple_id_old c"
  by (auto simp: state_GET_TURN_def Let_def split: option.splits if_splits sum.splits)

lemma HOME_TURN_id:
  "state_HOME_TURN c pos dir sc now = Inr (c', r, l, pre) \<Longrightarrow>
   closest_apple_id_old c' = closest_apple_id_old c"
  by (auto simp: state_HOME_TURN_def Let_def split: option.splits if_splits sum.splits)

lemma GET_STRAIGHT_id:
  "state_GET_STRAIGHT c pos dir sc lt now1 now2 = Inr (c', r, l, pre) \<Longrightarrow>
   closest_apple_id_old c' = closest_apple_id_old c"
  by (auto simp: state_GET_STRAIGHT_def Let_def
      split: option.splits if_splits sum.splits prod.splits)

lemma HOME_STRAIGHT_id:
  "state_HOME_STRAIGHT cfg c pos dir sc lt now1 now2 = Inr (c', r, l, pre) \<Longrightarrow>
   closest_apple_id_old c' = closest_apple_id_old c"
  by (auto simp: state_HOME_STRAIGHT_def Let_def
      split: option.splits if_splits sum.splits prod.splits)

lemma state_branch_id:
  assumes "state_branch cfg c gs pos dir sc lt inp = Inr (c', r, l, pre)"
  shows "if state c = GET_APPLE
         then (\<exists>a. get_closest_good_apple gs pos (closest_apple_id_old c) = Some a
                 \<and> closest_apple_id_old c' = a_id a
                 \<and> (state c' = GET_TURN \<or> state c' = HOME))
         else closest_apple_id_old c' = closest_apple_id_old c"
proof (cases "state c")
  case GET_APPLE
  with assms GET_APPLE_id show ?thesis by (simp add: state_branch_def)
next
  case GET_TURN
  with assms GET_TURN_id show ?thesis by (simp add: state_branch_def)
next
  case GET_STRAIGHT
  with assms GET_STRAIGHT_id show ?thesis by (simp add: state_branch_def)
next
  case HOME
  with assms HOME_id show ?thesis by (simp add: state_branch_def)
next
  case HOME_TURN
  with assms HOME_TURN_id show ?thesis by (simp add: state_branch_def)
next
  case HOME_STRAIGHT
  with assms HOME_STRAIGHT_id show ?thesis by (simp add: state_branch_def)
next
  case BACK_OFF
  with assms show ?thesis by (auto simp: state_branch_def state_BACK_OFF_def)
qed

lemma tick_selection:
  assumes "tick cfg c inp = Inr (c', cmds)"
  shows "case selection c inp of
           None \<Rightarrow> closest_apple_id_old c' = closest_apple_id_old c
         | Some a \<Rightarrow> closest_apple_id_old c' = a_id a
                     \<and> a_id a \<noteq> closest_apple_id_old c
                     \<and> (state c' = GET_TURN \<or> state c' = HOME)"
proof (cases "game_state inp")
  case None
  with assms show ?thesis by (auto simp: tick_def selection_def Let_def)
next
  case (Some gs)
  show ?thesis
  proof (cases "gameOn gs \<and> robot_alive gs")
    case False
    from tick_not_alive[OF Some False, of cfg c] assms
    have "c' = c \<lparr> t_old := time_now inp, state_old := Some (state c) \<rparr>"
      by (auto split: sum.splits)
    moreover from False Some have "selection c inp = None"
      by (auto simp: selection_def robot_alive_def
          split: sum.splits prod.splits option.splits)
    ultimately show ?thesis by simp
  next
    case True
    then obtain pos dir where
      f: "find_robot (robots gs) None None = Inr (Some pos, Some dir)"
      using robot_alive_find by blast
    from True have on: "gameOn gs" by simp
    from assms tick_alive[OF Some on f, of cfg c]
    have "alive_pass cfg (c \<lparr> t_old := time_now inp, state_old := Some (state c) \<rparr>) gs pos dir
            (state_old c \<noteq> Some (state c)) (time_now inp - t_old c) inp = Inr (c', cmds)"
      by simp
    from alive_pass_result[OF this] obtain dh sh c'' r l pre where
      b: "state_branch cfg
            (c \<lparr> t_old := time_now inp, state_old := Some (state c),
                 robot_dir_hist := dh, robot_dist_hist := sh \<rparr>)
            gs pos dir (state_old c \<noteq> Some (state c)) (time_now inp - t_old c) inp
          = Inr (c'', r, l, pre)"
      and c': "c' = c'' \<lparr> speed_right := limit_speed r, speed_left := limit_speed l \<rparr>"
      by auto
    have sel: "selection c inp =
       (if state c = GET_APPLE then get_closest_good_apple gs pos (closest_apple_id_old c)
        else None)"
      using Some f on by (simp add: selection_def)
    show ?thesis
    proof (cases "state c = GET_APPLE")
      case False
      with state_branch_id[OF b] c' sel show ?thesis by simp
    next
      case ga: True
      with state_branch_id[OF b] obtain a where
        a: "get_closest_good_apple gs pos (closest_apple_id_old c) = Some a"
        and i: "closest_apple_id_old c'' = a_id a"
        and st: "state c'' = GET_TURN \<or> state c'' = HOME"
        by auto
      have "selected pos (closest_apple_id_old c) (apples gs)
              (get_closest_good_apple gs pos (closest_apple_id_old c))"
        by (rule get_closest_good_apple_selected)
      with a have "a_id a \<noteq> closest_apple_id_old c"
        by (simp add: selected_def eligible_def)
      with a i st c' sel ga show ?thesis by simp
    qed
  qed
qed

lemma selections_adj:
  "distinct_adj (closest_apple_id_old c # selections cfg c inps)"
proof (induction inps arbitrary: c)
  case Nil
  show ?case by simp
next
  case (Cons inp rest)
  show ?case
  proof (cases "tick cfg c inp")
    case (Inl e)
    then show ?thesis by simp
  next
    case (Inr res)
    obtain c' cmds where res: "res = (c', cmds)" by (cases res)
    with Inr have t: "tick cfg c inp = Inr (c', cmds)" by simp
    note IH = Cons.IH[of c']
    show ?thesis
    proof (cases "selection c inp")
      case None
      with tick_selection[OF t] have "closest_apple_id_old c' = closest_apple_id_old c"
        by simp
      with IH t None show ?thesis by simp
    next
      case (Some a)
      with tick_selection[OF t]
      have "closest_apple_id_old c' = a_id a" "a_id a \<noteq> closest_apple_id_old c"
        by simp_all
      with IH t Some show ?thesis by simp
    qed
  qed
qed

text \<open>
  C10. A pass that selects an apple and completes stores the id of that apple as the
  excluded id, whether it goes on to \<^verbatim>\<open>GET_TURN\<close> or to \<^verbatim>\<open>HOME\<close>. In every run, from every
  state of the variables, no two consecutive selections have the same id, and the first
  selection differs from the id excluded at the start.
\<close>

theorem seek_excludes_last_selection:
  "distinct_adj (closest_apple_id_old c # selections cfg c inps)
   \<and> (\<forall>inp c' cmds a.
         tick cfg c inp = Inr (c', cmds) \<longrightarrow> selection c inp = Some a \<longrightarrow>
         closest_apple_id_old c' = a_id a \<and> (state c' = GET_TURN \<or> state c' = HOME))"
proof -
  have adj: "distinct_adj (closest_apple_id_old c # selections cfg c inps)"
    by (rule selections_adj)
  have rec: "\<forall>inp c' cmds a.
         tick cfg c inp = Inr (c', cmds) \<longrightarrow> selection c inp = Some a \<longrightarrow>
         closest_apple_id_old c' = a_id a \<and> (state c' = GET_TURN \<or> state c' = HOME)"
  proof (intro allI impI)
    fix inp c' cmds a
    assume "tick cfg c inp = Inr (c', cmds)" and "selection c inp = Some a"
    with tick_selection[of cfg c inp c' cmds]
    show "closest_apple_id_old c' = a_id a \<and> (state c' = GET_TURN \<or> state c' = HOME)"
      by simp
  qed
  from adj rec show ?thesis by (rule conjI)
qed

theorem seek_excludes_last_selection_witness:
  "selections example_config (initial_context 0)
     [pass_input 1 (Some (reading \<lparr>pt_x = 270, pt_y = 1010\<rparr> 90
                            [good_apple 1 270 1060, good_apple 2 270 1500])),
      pass_input 2 (Some (reading \<lparr>pt_x = 270, pt_y = 1010\<rparr> 90
                            [good_apple 1 270 1060, good_apple 2 270 1500])),
      pass_input 3 (Some (reading \<lparr>pt_x = 270, pt_y = 1010\<rparr> 90
                            [good_apple 1 270 1060, good_apple 2 270 1500]))]
     = [1, 2]
   \<and> distinct_adj [- 1, 1, 2 :: int]"
proof -
  let ?is = "[pass_input 1 (Some (reading \<lparr>pt_x = 270, pt_y = 1010\<rparr> 90
                            [good_apple 1 270 1060, good_apple 2 270 1500])),
      pass_input 2 (Some (reading \<lparr>pt_x = 270, pt_y = 1010\<rparr> 90
                            [good_apple 1 270 1060, good_apple 2 270 1500])),
      pass_input 3 (Some (reading \<lparr>pt_x = 270, pt_y = 1010\<rparr> 90
                            [good_apple 1 270 1060, good_apple 2 270 1500]))]"
  have s: "selections example_config (initial_context 0) ?is = [1, 2]"
    by (simp add: selection_def ex_defs step_defs Let_def atan2_up atan2_def numeral_3_eq_3)
  from seek_excludes_last_selection[of "initial_context 0" example_config ?is]
  have "distinct_adj (closest_apple_id_old (initial_context 0)
          # selections example_config (initial_context 0) ?is)"
    by simp
  with s show ?thesis by (simp add: initial_context_def)
qed

section \<open>The countdown near the target\<close>

lemma near_timer_changed:
  "near_target_timer (c \<lparr> target_dist := d, target_angle := g \<rparr>) n lt
     = near_target_timer c n lt"
  "near_target_timer (c \<lparr> target_dist := d, target_angle := g, PID_frwd_base := p1,
        PID_frwd_turn := p2, timer_near_target := t \<rparr>) n lt
     = near_target_timer (c \<lparr> timer_near_target := t \<rparr>) n lt"
  "near_target_timer (c \<lparr> target_dist := d, target_angle := g, PID_frwd_base_apple := p1,
        PID_frwd_turn_apple := p2, timer_near_target := t,
        pid_frwd_base_apple_multiplier := m \<rparr>) n lt
     = near_target_timer (c \<lparr> timer_near_target := t \<rparr>) n lt"
  by (simp_all add: near_target_timer_def Let_def cong: option.case_cong if_cong)

lemma near_timer_entry:
  assumes "robot_near_target_old c = Some b"
    and "if sc \<or> \<not> b then T = TIMER_NEAR_TARGET else timer_near_target c = Some T"
  shows "near_target_timer (if sc then c \<lparr> timer_near_target := Some TIMER_NEAR_TARGET \<rparr> else c)
           True lt = Inr (\<not> b, Some (T - lt))"
  using assms by (auto simp: near_target_timer_def Let_def split: if_splits)

lemma GET_STRAIGHT_expired:
  assumes "target c = Some tgt" and "get_distance pos tgt < DIST_NEAR"
    and "\<not> dist_reached (robot_dist_hist c)"
    and "robot_near_target_old c = Some b"
    and "if sc \<or> \<not> b then T = TIMER_NEAR_TARGET else timer_near_target c = Some T"
    and "T - lt < 0"
  shows "\<exists>c'. state_GET_STRAIGHT c pos dir sc lt n1 n2 = Inr (c', 0, 0, [])
            \<and> state c' = GET_TURN"
  using assms near_timer_entry[OF assms(4,5), of lt]
  by (cases sc) (simp_all add: state_GET_STRAIGHT_def Let_def near_timer_changed)

lemma GET_STRAIGHT_stays:
  assumes "target c = Some tgt" and "get_distance pos tgt < DIST_NEAR"
    and "\<not> dist_reached (robot_dist_hist c)"
    and "robot_near_target_old c = Some b"
    and "if sc \<or> \<not> b then T = TIMER_NEAR_TARGET else timer_near_target c = Some T"
    and "\<not> T - lt < 0"
    and "state_GET_STRAIGHT c pos dir sc lt n1 n2 = Inr (c', r, l, pre)"
  shows "state c' = state c \<and> state_old c' = state_old c \<and> t_old c' = t_old c
       \<and> robot_near_target_old c' = Some True \<and> timer_near_target c' = Some (T - lt)
       \<and> target c' = target c \<and> robot_dist_hist c' = robot_dist_hist c
       \<and> robot_dir_hist c' = robot_dir_hist c"
  using assms near_timer_entry[OF assms(4,5), of lt]
  by (cases sc)
     (auto simp add: state_GET_STRAIGHT_def Let_def near_timer_changed
        split: sum.splits prod.splits)

lemma HOME_STRAIGHT_expired:
  assumes "target c = Some tgt" and "get_distance pos tgt < DIST_NEAR"
    and "\<not> dist_reached (robot_dist_hist c)"
    and "\<not> (if team_my_tag cfg = ''team1'' then in_team_one pos else in_team_two pos)"
    and "robot_near_target_old c = Some b"
    and "if sc \<or> \<not> b then T = TIMER_NEAR_TARGET else timer_near_target c = Some T"
    and "T - lt < 0"
  shows "\<exists>c'. state_HOME_STRAIGHT cfg c pos dir sc lt n1 n2 = Inr (c', 0, 0, [])
            \<and> state c' = HOME_TURN"
  using assms near_timer_entry[OF assms(5,6), of lt]
  by (cases sc) (simp_all add: state_HOME_STRAIGHT_def Let_def near_timer_changed)

lemma HOME_STRAIGHT_stays:
  assumes "target c = Some tgt" and "get_distance pos tgt < DIST_NEAR"
    and "\<not> dist_reached (robot_dist_hist c)"
    and "\<not> (if team_my_tag cfg = ''team1'' then in_team_one pos else in_team_two pos)"
    and "robot_near_target_old c = Some b"
    and "if sc \<or> \<not> b then T = TIMER_NEAR_TARGET else timer_near_target c = Some T"
    and "\<not> T - lt < 0"
    and "state_HOME_STRAIGHT cfg c pos dir sc lt n1 n2 = Inr (c', r, l, pre)"
  shows "state c' = state c \<and> state_old c' = state_old c \<and> t_old c' = t_old c
       \<and> robot_near_target_old c' = Some True \<and> timer_near_target c' = Some (T - lt)
       \<and> target c' = target c \<and> robot_dist_hist c' = robot_dist_hist c
       \<and> robot_dir_hist c' = robot_dir_hist c"
  using assms near_timer_entry[OF assms(5,6), of lt]
  by (cases sc)
     (auto simp add: state_HOME_STRAIGHT_def Let_def near_timer_changed
        split: sum.splits prod.splits)


lemma pass_robot_Some:
  assumes "pass_robot inp = Some (pos, dir)"
  shows "\<exists>gs. game_state inp = Some gs \<and> gameOn gs
            \<and> find_robot (robots gs) None None = Inr (Some pos, Some dir)"
  using assms
  by (auto simp: pass_robot_def split: sum.splits option.splits prod.splits if_splits)

lemma alive_pass_eq:
  assumes "push_hist (robot_dir_hist c) (target_angle c) = Inr dh"
    and "push_hist (robot_dist_hist c) (Num (target_dist c)) = Inr sh"
  shows "alive_pass cfg c gs pos dir sc lt inp =
     (case state_branch cfg (c \<lparr> robot_dir_hist := dh, robot_dist_hist := sh \<rparr>)
             gs pos dir sc lt inp of
        Inl e \<Rightarrow> Inl e
      | Inr (c', raw_right, raw_left, cmds) \<Rightarrow>
          Inr (c' \<lparr> speed_right := limit_speed raw_right,
                    speed_left := limit_speed raw_left \<rparr>,
               cmds @ [run_forever motor_right (- limit_speed raw_right),
                       run_forever motor_left (- limit_speed raw_left)]))"
  using assms by (simp add: alive_pass_def Let_def split: sum.splits prod.splits)

lemma push_hist_nonempty:
  "hist \<noteq> [] \<Longrightarrow> \<exists>h. push_hist hist v = Inr h \<and> h \<noteq> []"
  by (cases hist) (simp_all add: push_hist_def)

lemma drive_pass:
  assumes s: "state c = GET_STRAIGHT \<or> state c = HOME_STRAIGHT"
    and near: "near_target c inp" and na: "\<not> arrival cfg c inp"
    and armed: "armed c D"
    and hist: "robot_dir_hist c \<noteq> []" "robot_dist_hist c \<noteq> []"
  shows "(D < time_now inp \<longrightarrow>
            (\<exists>c' cmds. tick cfg c inp = Inr (c', cmds) \<and> state c' = turn_of (state c)))
       \<and> (time_now inp \<le> D \<longrightarrow>
            (\<forall>c' cmds. tick cfg c inp = Inr (c', cmds) \<longrightarrow>
               state c' = state c \<and> armed c' D
               \<and> robot_dir_hist c' \<noteq> [] \<and> robot_dist_hist c' \<noteq> []))"
proof -
  from near obtain pos dir tgt where
    pr: "pass_robot inp = Some (pos, dir)" and tg: "target c = Some tgt"
    and d: "get_distance pos tgt < DIST_NEAR"
    by (auto simp: near_target_def split: option.splits prod.splits)
  from pass_robot_Some[OF pr] obtain gs where
    gs: "game_state inp = Some gs" and on: "gameOn gs"
    and f: "find_robot (robots gs) None None = Inr (Some pos, Some dir)"
    by blast
  from push_hist_nonempty[OF hist(1)] obtain dh where
    dh: "push_hist (robot_dir_hist c) (target_angle c) = Inr dh" "dh \<noteq> []" by blast
  from push_hist_nonempty[OF hist(2)] obtain sh where
    sh: "push_hist (robot_dist_hist c) (Num (target_dist c)) = Inr sh" "sh \<noteq> []" by blast
  from na pr sh(1) have nr: "\<not> dist_reached sh"
    and nz: "state c = HOME_STRAIGHT \<Longrightarrow>
             \<not> (if team_my_tag cfg = ''team1'' then in_team_one pos else in_team_two pos)"
    by (auto simp: arrival_def)
  from armed obtain b where b: "robot_near_target_old c = Some b"
    by (auto simp: armed_def)
  define sc where "sc = (state_old c \<noteq> Some (state c))"
  define lt where "lt = time_now inp - t_old c"
  define T where "T = D - t_old c"
  define c1 where "c1 = c \<lparr> t_old := time_now inp, state_old := Some (state c),
                            robot_dir_hist := dh, robot_dist_hist := sh \<rparr>"
  have Tlt: "T - lt = D - time_now inp" by (simp add: T_def lt_def)
  have arm1: "if sc \<or> \<not> b then T = TIMER_NEAR_TARGET else timer_near_target c1 = Some T"
    using armed b by (auto simp: armed_def sc_def T_def c1_def)
  have c1f: "target c1 = Some tgt" "\<not> dist_reached (robot_dist_hist c1)"
    "robot_near_target_old c1 = Some b" "state c1 = state c"
    "state_old c1 = Some (state c)" "t_old c1 = time_now inp"
    "robot_dir_hist c1 = dh" "robot_dist_hist c1 = sh"
    using tg nr b by (simp_all add: c1_def)
  have tk: "tick cfg c inp =
     (case state_branch cfg c1 gs pos dir sc lt inp of
        Inl e \<Rightarrow> Inl e
      | Inr (c', raw_right, raw_left, cmds) \<Rightarrow>
          Inr (c' \<lparr> speed_right := limit_speed raw_right,
                    speed_left := limit_speed raw_left \<rparr>,
               cmds @ [run_forever motor_right (- limit_speed raw_right),
                       run_forever motor_left (- limit_speed raw_left)]))"
    unfolding tick_alive[OF gs on f] sc_def lt_def c1_def
    by (rule alive_pass_eq) (simp_all add: dh sh)
  have expired: "D < time_now inp \<longrightarrow>
            (\<exists>c' cmds. tick cfg c inp = Inr (c', cmds) \<and> state c' = turn_of (state c))"
  proof
    assume late: "D < time_now inp"
    then have neg: "T - lt < 0" using Tlt by simp
    from s show "\<exists>c' cmds. tick cfg c inp = Inr (c', cmds) \<and> state c' = turn_of (state c)"
    proof
      assume g: "state c = GET_STRAIGHT"
      from GET_STRAIGHT_expired[OF c1f(1) d c1f(2) c1f(3) arm1 neg,
          of dir "time_pid1 inp" "time_pid2 inp"]
      obtain c' where "state_GET_STRAIGHT c1 pos dir sc lt (time_pid1 inp) (time_pid2 inp)
          = Inr (c', 0, 0, [])" and "state c' = GET_TURN" by blast
      with g c1f(4) show ?thesis
        by (simp add: tk state_branch_def)
    next
      assume g: "state c = HOME_STRAIGHT"
      from HOME_STRAIGHT_expired[OF c1f(1) d c1f(2) nz[OF g] c1f(3) arm1 neg,
          of dir "time_pid1 inp" "time_pid2 inp"]
      obtain c' where "state_HOME_STRAIGHT cfg c1 pos dir sc lt (time_pid1 inp) (time_pid2 inp)
          = Inr (c', 0, 0, [])" and "state c' = HOME_TURN" by blast
      with g c1f(4) show ?thesis
        by (simp add: tk state_branch_def)
    qed
  qed
  have stays: "time_now inp \<le> D \<longrightarrow>
            (\<forall>c' cmds. tick cfg c inp = Inr (c', cmds) \<longrightarrow>
               state c' = state c \<and> armed c' D
               \<and> robot_dir_hist c' \<noteq> [] \<and> robot_dist_hist c' \<noteq> [])"
  proof (intro impI allI)
    fix c' cmds
    assume early: "time_now inp \<le> D" and t: "tick cfg c inp = Inr (c', cmds)"
    from early have nneg: "\<not> T - lt < 0" using Tlt by simp
    from t tk obtain c'' r l pre where
      br: "state_branch cfg c1 gs pos dir sc lt inp = Inr (c'', r, l, pre)"
      and c': "c' = c'' \<lparr> speed_right := limit_speed r, speed_left := limit_speed l \<rparr>"
      by (auto split: sum.splits prod.splits)
    have props: "state c'' = state c1 \<and> state_old c'' = state_old c1 \<and> t_old c'' = t_old c1
       \<and> robot_near_target_old c'' = Some True \<and> timer_near_target c'' = Some (T - lt)
       \<and> target c'' = target c1 \<and> robot_dist_hist c'' = robot_dist_hist c1
       \<and> robot_dir_hist c'' = robot_dir_hist c1"
      using s
    proof
      assume g: "state c = GET_STRAIGHT"
      with br c1f(4)
      have "state_GET_STRAIGHT c1 pos dir sc lt (time_pid1 inp) (time_pid2 inp)
          = Inr (c'', r, l, pre)" by (simp add: state_branch_def)
      from GET_STRAIGHT_stays[OF c1f(1) d c1f(2) c1f(3) arm1 nneg this]
      show ?thesis .
    next
      assume g: "state c = HOME_STRAIGHT"
      with br c1f(4)
      have "state_HOME_STRAIGHT cfg c1 pos dir sc lt (time_pid1 inp) (time_pid2 inp)
          = Inr (c'', r, l, pre)" by (simp add: state_branch_def)
      from HOME_STRAIGHT_stays[OF c1f(1) d c1f(2) nz[OF g] c1f(3) arm1 nneg this]
      show ?thesis .
    qed
    with c' c1f Tlt dh(2) sh(2)
    show "state c' = state c \<and> armed c' D
               \<and> robot_dir_hist c' \<noteq> [] \<and> robot_dist_hist c' \<noteq> []"
      by (simp add: armed_def)
  qed
  from expired stays show ?thesis by (rule conjI)
qed


lemma near_passes_states:
  "inps \<noteq> [] \<Longrightarrow> state c = GET_STRAIGHT \<or> state c = HOME_STRAIGHT \<Longrightarrow> armed c D \<Longrightarrow>
   robot_dir_hist c \<noteq> [] \<Longrightarrow> robot_dist_hist c \<noteq> [] \<Longrightarrow> near_passes cfg c inps \<Longrightarrow>
   \<forall>inp \<in> set (butlast inps). time_now inp \<le> D \<Longrightarrow> D < time_now (last inps) \<Longrightarrow>
   states cfg c inps = replicate (length inps - 1) (state c) @ [turn_of (state c)]"
proof (induction inps arbitrary: c)
  case Nil
  then show ?case by simp
next
  case (Cons inp rest)
  from Cons.prems(6) have near: "near_target c inp" and na: "\<not> arrival cfg c inp"
    by simp_all
  note dp = drive_pass[OF Cons.prems(2) near na Cons.prems(3,4,5)]
  show ?case
  proof (cases "rest = []")
    case True
    with Cons.prems(8) have "D < time_now inp" by simp
    with dp obtain c' cmds where "tick cfg c inp = Inr (c', cmds)"
      and "state c' = turn_of (state c)" by blast
    with True show ?thesis by simp
  next
    case False
    with Cons.prems(6) obtain c' cmds where t: "tick cfg c inp = Inr (c', cmds)"
      and np: "near_passes cfg c' rest"
      by (auto split: sum.splits)
    from False Cons.prems(7) have early: "time_now inp \<le> D"
      and rest_early: "\<forall>i \<in> set (butlast rest). time_now i \<le> D" by simp_all
    from False Cons.prems(8) have late: "D < time_now (last rest)" by simp
    from dp early t have st: "state c' = state c" and ar: "armed c' D"
      and h: "robot_dir_hist c' \<noteq> []" "robot_dist_hist c' \<noteq> []" by blast+
    from Cons.prems(2) st have s': "state c' = GET_STRAIGHT \<or> state c' = HOME_STRAIGHT"
      by simp
    from Cons.IH[OF False s' ar h np rest_early late]
    have "states cfg c' rest = replicate (length rest - 1) (state c) @ [turn_of (state c)]"
      by (simp add: st)
    moreover from False have "length rest = Suc (length rest - 1)" by (cases rest) simp_all
    ultimately show ?thesis using t st
      by (simp add: replicate_Suc[symmetric] del: replicate_Suc)
  qed
qed


lemma near_target_timer_value:
  assumes "near_target_timer c n lt = Inr (e, t)"
  shows "\<exists>b. robot_near_target_old c = Some b
     \<and> t = (let dec = (if n then lt else 0)
            in if \<not> b \<and> n then Some (TIMER_NEAR_TARGET - dec)
               else map_option (\<lambda>t. t - dec) (timer_near_target c))"
  using assms
  by (auto simp: near_target_timer_def Let_def split: option.splits if_splits)

lemma GET_STRAIGHT_timer_raw:
  assumes "state_GET_STRAIGHT c pos dir sc lt n1 n2 = Inr (c', r, l, pre)"
  shows "\<exists>tgt e t. target c = Some tgt
     \<and> near_target_timer (if sc then c \<lparr> timer_near_target := Some TIMER_NEAR_TARGET \<rparr> else c)
          (get_distance pos tgt < DIST_NEAR) lt = Inr (e, t)
     \<and> timer_near_target c' = t"
proof (cases "target c")
  case None
  with assms show ?thesis by (simp add: state_GET_STRAIGHT_def)
next
  case (Some tgt)
  show ?thesis
  proof (cases "near_target_timer
           (if sc then c \<lparr> timer_near_target := Some TIMER_NEAR_TARGET \<rparr> else c)
           (get_distance pos tgt < DIST_NEAR) lt")
    case (Inl e)
    with assms Some show ?thesis
      by (cases sc) (simp_all add: state_GET_STRAIGHT_def Let_def near_timer_changed)
  next
    case (Inr et)
    obtain e t where et: "et = (e, t)" by (cases et)
    with assms Some Inr show ?thesis
      by (cases sc)
         (auto simp add: state_GET_STRAIGHT_def Let_def near_timer_changed
            split: option.splits sum.splits prod.splits if_splits)
  qed
qed


lemma HOME_STRAIGHT_timer_raw:
  assumes "state_HOME_STRAIGHT cfg c pos dir sc lt n1 n2 = Inr (c', r, l, pre)"
  shows "\<exists>tgt e t. target c = Some tgt
     \<and> near_target_timer (if sc then c \<lparr> timer_near_target := Some TIMER_NEAR_TARGET \<rparr> else c)
          (get_distance pos tgt < DIST_NEAR) lt = Inr (e, t)
     \<and> timer_near_target c' = t"
proof (cases "target c")
  case None
  with assms show ?thesis by (simp add: state_HOME_STRAIGHT_def)
next
  case (Some tgt)
  show ?thesis
  proof (cases "near_target_timer
           (if sc then c \<lparr> timer_near_target := Some TIMER_NEAR_TARGET \<rparr> else c)
           (get_distance pos tgt < DIST_NEAR) lt")
    case (Inl e)
    with assms Some show ?thesis
      by (cases sc) (simp_all add: state_HOME_STRAIGHT_def Let_def near_timer_changed)
  next
    case (Inr et)
    obtain e t where et: "et = (e, t)" by (cases et)
    with assms Some Inr show ?thesis
      by (cases sc)
         (auto simp add: state_HOME_STRAIGHT_def Let_def near_timer_changed
            split: option.splits sum.splits prod.splits if_splits)
  qed
qed

lemma drive_timer:
  assumes s: "state c = GET_STRAIGHT \<or> state c = HOME_STRAIGHT"
    and pr: "pass_robot inp \<noteq> None"
    and t: "tick cfg c inp = Inr (c', cmds)"
  shows "timer_near_target c' =
    (let dec = (if near_target c inp then time_now inp - t_old c else 0)
     in if state_old c \<noteq> Some (state c)
           \<or> (robot_near_target_old c = Some False \<and> near_target c inp)
        then Some (TIMER_NEAR_TARGET - dec)
        else map_option (\<lambda>t. t - dec) (timer_near_target c))"
proof -
  from pr obtain pos dir where pr': "pass_robot inp = Some (pos, dir)" by auto
  from pass_robot_Some[OF pr'] obtain gs where
    gs: "game_state inp = Some gs" and on: "gameOn gs"
    and f: "find_robot (robots gs) None None = Inr (Some pos, Some dir)"
    by blast
  define sc where "sc = (state_old c \<noteq> Some (state c))"
  define lt where "lt = time_now inp - t_old c"
  from t tick_alive[OF gs on f, of cfg c]
  have "alive_pass cfg (c \<lparr> t_old := time_now inp, state_old := Some (state c) \<rparr>) gs pos dir
          sc lt inp = Inr (c', cmds)"
    by (simp add: sc_def lt_def)
  from alive_pass_result[OF this] obtain dh sh c'' r l pre where
    br: "state_branch cfg
          (c \<lparr> t_old := time_now inp, state_old := Some (state c),
               robot_dir_hist := dh, robot_dist_hist := sh \<rparr>)
          gs pos dir sc lt inp = Inr (c'', r, l, pre)"
    and c': "c' = c'' \<lparr> speed_right := limit_speed r, speed_left := limit_speed l \<rparr>"
    by auto
  define c1 where "c1 = c \<lparr> t_old := time_now inp, state_old := Some (state c),
                            robot_dir_hist := dh, robot_dist_hist := sh \<rparr>"
  have "\<exists>tgt e t. target c1 = Some tgt
     \<and> near_target_timer (if sc then c1 \<lparr> timer_near_target := Some TIMER_NEAR_TARGET \<rparr> else c1)
          (get_distance pos tgt < DIST_NEAR) lt = Inr (e, t)
     \<and> timer_near_target c'' = t"
    using s
  proof
    assume "state c = GET_STRAIGHT"
    with br have "state_GET_STRAIGHT c1 pos dir sc lt (time_pid1 inp) (time_pid2 inp)
        = Inr (c'', r, l, pre)" by (simp add: state_branch_def c1_def)
    then show ?thesis by (rule GET_STRAIGHT_timer_raw)
  next
    assume "state c = HOME_STRAIGHT"
    with br have "state_HOME_STRAIGHT cfg c1 pos dir sc lt (time_pid1 inp) (time_pid2 inp)
        = Inr (c'', r, l, pre)" by (simp add: state_branch_def c1_def)
    then show ?thesis by (rule HOME_STRAIGHT_timer_raw)
  qed
  then obtain tgt e tm where tg: "target c1 = Some tgt"
    and nt: "near_target_timer
               (if sc then c1 \<lparr> timer_near_target := Some TIMER_NEAR_TARGET \<rparr> else c1)
               (get_distance pos tgt < DIST_NEAR) lt = Inr (e, tm)"
    and tm: "timer_near_target c'' = tm" by blast
  from tg have tgc: "target c = Some tgt" by (simp add: c1_def)
  with pr' have nr: "near_target c inp = (get_distance pos tgt < DIST_NEAR)"
    by (simp add: near_target_def)
  from near_target_timer_value[OF nt] obtain b where
    b: "robot_near_target_old
          (if sc then c1 \<lparr> timer_near_target := Some TIMER_NEAR_TARGET \<rparr> else c1) = Some b"
    and v: "tm = (let dec = (if get_distance pos tgt < DIST_NEAR then lt else 0)
            in if \<not> b \<and> get_distance pos tgt < DIST_NEAR
               then Some (TIMER_NEAR_TARGET - dec)
               else map_option (\<lambda>t. t - dec)
                      (timer_near_target
                         (if sc then c1 \<lparr> timer_near_target := Some TIMER_NEAR_TARGET \<rparr>
                          else c1)))"
    by blast
  from b have bc: "robot_near_target_old c = Some b" by (simp add: c1_def split: if_splits)
  have "timer_near_target c' = tm" using tm c' by simp
  with v bc nr show ?thesis
    by (cases sc) (auto simp: Let_def c1_def sc_def lt_def)
qed

lemma HOME_STRAIGHT_in_zone:
  assumes "state_HOME_STRAIGHT cfg c pos dir sc lt n1 n2 = Inr (c', r, l, pre)"
    and "if team_my_tag cfg = ''team1'' then in_team_one pos else in_team_two pos"
  shows "state c' = BACK_OFF"
proof (cases "target c")
  case None
  with assms show ?thesis by (simp add: state_HOME_STRAIGHT_def)
next
  case (Some tgt)
  show ?thesis
  proof (cases "near_target_timer
           (if sc then c \<lparr> timer_near_target := Some TIMER_NEAR_TARGET \<rparr> else c)
           (get_distance pos tgt < DIST_NEAR) lt")
    case (Inl e)
    with assms Some show ?thesis
      by (cases sc) (simp_all add: state_HOME_STRAIGHT_def Let_def near_timer_changed)
  next
    case (Inr et)
    obtain e t where et: "et = (e, t)" by (cases et)
    with assms Some Inr show ?thesis
      by (cases sc)
         (auto simp add: state_HOME_STRAIGHT_def Let_def near_timer_changed
            split: if_splits)
  qed
qed

lemma near_target_timer_completes:
  assumes "robot_near_target_old c = Some b"
    and "n \<longrightarrow> \<not> b \<or> timer_near_target c \<noteq> None"
  shows "\<exists>e t. near_target_timer c n lt = Inr (e, t)"
  using assms by (auto simp: near_target_timer_def Let_def)

lemma HOME_STRAIGHT_in_zone_completes:
  assumes "target c = Some tgt" and "robot_near_target_old c = Some b"
    and "get_distance pos tgt < DIST_NEAR \<longrightarrow> sc \<or> \<not> b \<or> timer_near_target c \<noteq> None"
    and "if team_my_tag cfg = ''team1'' then in_team_one pos else in_team_two pos"
  shows "\<exists>c' r l pre. state_HOME_STRAIGHT cfg c pos dir sc lt n1 n2 = Inr (c', r, l, pre)"
proof -
  have "\<exists>e t. near_target_timer
           (if sc then c \<lparr> timer_near_target := Some TIMER_NEAR_TARGET \<rparr> else c)
           (get_distance pos tgt < DIST_NEAR) lt = Inr (e, t)"
    by (rule near_target_timer_completes[where b = b]) (use assms(2,3) in auto)
  then obtain e t where "near_target_timer
           (if sc then c \<lparr> timer_near_target := Some TIMER_NEAR_TARGET \<rparr> else c)
           (get_distance pos tgt < DIST_NEAR) lt = Inr (e, t)" by blast
  with assms(1,4) show ?thesis
    by (cases sc) (simp_all add: state_HOME_STRAIGHT_def Let_def near_timer_changed)
qed

lemma drive_home_zone:
  assumes s: "state d = HOME_STRAIGHT" and pr: "pass_robot inp = Some (pos, dir)"
    and z: "if team_my_tag cfg = ''team1'' then in_team_one pos else in_team_two pos"
  shows "(\<forall>d' cmds. tick cfg d inp = Inr (d', cmds) \<longrightarrow> state d' = BACK_OFF)
    \<and> (target d \<noteq> None \<longrightarrow> robot_near_target_old d \<noteq> None \<longrightarrow>
        robot_dir_hist d \<noteq> [] \<longrightarrow> robot_dist_hist d \<noteq> [] \<longrightarrow>
        (near_target d inp \<longrightarrow>
           state_old d \<noteq> Some HOME_STRAIGHT \<or> robot_near_target_old d = Some False
           \<or> timer_near_target d \<noteq> None) \<longrightarrow>
        (\<exists>d' cmds. tick cfg d inp = Inr (d', cmds) \<and> state d' = BACK_OFF))"
proof -
  from pass_robot_Some[OF pr] obtain gs where
    gs: "game_state inp = Some gs" and on: "gameOn gs"
    and f: "find_robot (robots gs) None None = Inr (Some pos, Some dir)"
    by blast
  define sc where "sc = (state_old d \<noteq> Some (state d))"
  define lt where "lt = time_now inp - t_old d"
  have goes: "\<forall>d' cmds. tick cfg d inp = Inr (d', cmds) \<longrightarrow> state d' = BACK_OFF"
  proof (intro allI impI)
    fix d' cmds
    assume t: "tick cfg d inp = Inr (d', cmds)"
    from t tick_alive[OF gs on f, of cfg d]
    have "alive_pass cfg (d \<lparr> t_old := time_now inp, state_old := Some (state d) \<rparr>) gs pos dir
            sc lt inp = Inr (d', cmds)"
      by (simp add: sc_def lt_def)
    from alive_pass_result[OF this] obtain dh sh d'' r l pre where
      br: "state_branch cfg
            (d \<lparr> t_old := time_now inp, state_old := Some (state d),
                 robot_dir_hist := dh, robot_dist_hist := sh \<rparr>)
            gs pos dir sc lt inp = Inr (d'', r, l, pre)"
      and d': "d' = d'' \<lparr> speed_right := limit_speed r, speed_left := limit_speed l \<rparr>"
      by auto
    from br s have "state_HOME_STRAIGHT cfg
            (d \<lparr> t_old := time_now inp, state_old := Some (state d),
                 robot_dir_hist := dh, robot_dist_hist := sh \<rparr>)
            pos dir sc lt (time_pid1 inp) (time_pid2 inp) = Inr (d'', r, l, pre)"
      by (simp add: state_branch_def)
    from HOME_STRAIGHT_in_zone[OF this z] d' show "state d' = BACK_OFF" by simp
  qed
  have completes: "target d \<noteq> None \<longrightarrow> robot_near_target_old d \<noteq> None \<longrightarrow>
        robot_dir_hist d \<noteq> [] \<longrightarrow> robot_dist_hist d \<noteq> [] \<longrightarrow>
        (near_target d inp \<longrightarrow>
           state_old d \<noteq> Some HOME_STRAIGHT \<or> robot_near_target_old d = Some False
           \<or> timer_near_target d \<noteq> None) \<longrightarrow>
        (\<exists>d' cmds. tick cfg d inp = Inr (d', cmds) \<and> state d' = BACK_OFF)"
  proof (intro impI)
    assume tg: "target d \<noteq> None" and no: "robot_near_target_old d \<noteq> None"
      and h1: "robot_dir_hist d \<noteq> []" and h2: "robot_dist_hist d \<noteq> []"
      and ar: "near_target d inp \<longrightarrow>
           state_old d \<noteq> Some HOME_STRAIGHT \<or> robot_near_target_old d = Some False
           \<or> timer_near_target d \<noteq> None"
    from tg obtain tgt where tgt: "target d = Some tgt" by auto
    from no obtain b where b: "robot_near_target_old d = Some b" by auto
    from push_hist_nonempty[OF h1] obtain dh where
      dh: "push_hist (robot_dir_hist d) (target_angle d) = Inr dh" by blast
    from push_hist_nonempty[OF h2] obtain sh where
      sh: "push_hist (robot_dist_hist d) (Num (target_dist d)) = Inr sh" by blast
    define d1 where "d1 = d \<lparr> t_old := time_now inp, state_old := Some (state d),
                              robot_dir_hist := dh, robot_dist_hist := sh \<rparr>"
    have nr: "near_target d inp = (get_distance pos tgt < DIST_NEAR)"
      using pr tgt by (simp add: near_target_def)
    have c3: "get_distance pos tgt < DIST_NEAR \<longrightarrow>
                sc \<or> \<not> b \<or> timer_near_target d1 \<noteq> None"
      using ar nr b s by (auto simp: sc_def d1_def)
    have "\<exists>c' r l pre. state_HOME_STRAIGHT cfg d1 pos dir sc lt (time_pid1 inp) (time_pid2 inp)
            = Inr (c', r, l, pre)"
      by (rule HOME_STRAIGHT_in_zone_completes[where tgt = tgt and b = b])
         (use tgt b c3 z in \<open>simp_all add: d1_def\<close>)
    then obtain c' r l pre where
      hs: "state_HOME_STRAIGHT cfg d1 pos dir sc lt (time_pid1 inp) (time_pid2 inp)
            = Inr (c', r, l, pre)" by blast
    have tk: "tick cfg d inp =
       (case state_branch cfg d1 gs pos dir sc lt inp of
          Inl e \<Rightarrow> Inl e
        | Inr (c', raw_right, raw_left, cmds) \<Rightarrow>
            Inr (c' \<lparr> speed_right := limit_speed raw_right,
                      speed_left := limit_speed raw_left \<rparr>,
                 cmds @ [run_forever motor_right (- limit_speed raw_right),
                         run_forever motor_left (- limit_speed raw_left)]))"
      unfolding tick_alive[OF gs on f] sc_def lt_def d1_def
      by (rule alive_pass_eq) (simp_all add: dh sh)
    from hs s have "state_branch cfg d1 gs pos dir sc lt inp = Inr (c', r, l, pre)"
      by (simp add: state_branch_def d1_def)
    with tk obtain d' cmds where t: "tick cfg d inp = Inr (d', cmds)" by simp
    with goes have "state d' = BACK_OFF" by blast
    with t show "\<exists>d' cmds. tick cfg d inp = Inr (d', cmds) \<and> state d' = BACK_OFF"
      by blast
  qed
  from goes completes show ?thesis by (rule conjI)
qed

text \<open>
  C6, as the claim states it, fails in \<^verbatim>\<open>HOME_STRAIGHT\<close>. After three passes from the start
  the state is \<^verbatim>\<open>HOME_STRAIGHT\<close>, just entered. In the fourth pass, four seconds later, the
  robot is 50 mm from the home point, the distance history is not within the tolerance
  and the countdown ends at -1; the robot is inside the home zone, and the state becomes
  \<^verbatim>\<open>BACK_OFF\<close>, not \<^verbatim>\<open>HOME_TURN\<close>.
\<close>

theorem near_target_watchdog_counterexample:
  "(case run example_config (initial_context 0)
           [pass_input 1 (Some (reading \<lparr>pt_x = 270, pt_y = 800\<rparr> 90 [good_apple 1 270 850])),
            pass_input 2 (Some (reading \<lparr>pt_x = 270, pt_y = 800\<rparr> 90 [good_apple 1 270 850])),
            pass_input 3 (Some (reading \<lparr>pt_x = 270, pt_y = 800\<rparr> 90 [good_apple 1 270 850]))] of
      Inl e \<Rightarrow> False
    | Inr c3 \<Rightarrow>
        state c3 = HOME_STRAIGHT \<and> state_old c3 = Some HOME_TURN
        \<and> near_target c3
             (pass_input 7 (Some (reading \<lparr>pt_x = 270, pt_y = 960\<rparr> 90 [good_apple 1 270 850])))
        \<and> (case push_hist (robot_dist_hist c3) (Num (target_dist c3)) of
              Inl e \<Rightarrow> False
            | Inr hist \<Rightarrow> \<not> dist_reached hist)
        \<and> TIMER_NEAR_TARGET < 7 - t_old c3
        \<and> (case tick example_config c3
                   (pass_input 7
                      (Some (reading \<lparr>pt_x = 270, pt_y = 960\<rparr> 90 [good_apple 1 270 850]))) of
              Inl e \<Rightarrow> False
            | Inr (c4, cmds) \<Rightarrow>
                state c4 = BACK_OFF \<and> state c4 \<noteq> turn_of (state c3)
                \<and> timer_near_target c4 = Some (- 1)))"
  by (simp add: ex_defs step_defs near_target_def pass_robot_def in_team_one_def
      Let_def atan2_up numeral_3_eq_3)

text \<open>
  C6, amended, in three parts.

  First: take passes that run a drive-straight branch one after the other, the first of
  them seeing the state change or having near-target false in the pass before, and in
  each of them the robot near the target and no arrival detected (the distance history
  not within tolerance and, in \<^verbatim>\<open>HOME_STRAIGHT\<close>, the robot outside the home zone). If the
  clock at the top of the pass is at most \<^verbatim>\<open>TIMER_NEAR_TARGET\<close> after the pass before the
  first for all of them but the last, and more than that for the last, then all the
  passes complete, the state stays the driving state after each pass but the last, and
  is the turn state of that driving state after the last.

  Second: in every completed pass of a drive-straight branch the countdown is set to
  \<^verbatim>\<open>TIMER_NEAR_TARGET\<close> when the pass sees the state change or near-target turns from false
  to true, and is lowered by the loop time of the pass exactly when the robot is near the
  target.

  Third: in \<^verbatim>\<open>HOME_STRAIGHT\<close> a pass with the robot inside the home zone of its team ends in
  \<^verbatim>\<open>BACK_OFF\<close> when it completes, whatever the countdown; and it completes when the target
  and \<^verbatim>\<open>robot_near_target_old\<close> are bound, the histories are not empty and, with the robot
  near the target, the countdown is bound or set in the pass.
\<close>

theorem near_target_watchdog:
  "((state c = GET_STRAIGHT \<or> state c = HOME_STRAIGHT) \<longrightarrow>
    (state_old c \<noteq> Some (state c) \<or> robot_near_target_old c = Some False) \<longrightarrow>
    robot_near_target_old c \<noteq> None \<longrightarrow>
    robot_dir_hist c \<noteq> [] \<longrightarrow> robot_dist_hist c \<noteq> [] \<longrightarrow>
    inps \<noteq> [] \<longrightarrow> near_passes cfg c inps \<longrightarrow>
    (\<forall>inp \<in> set (butlast inps). time_now inp - t_old c \<le> TIMER_NEAR_TARGET) \<longrightarrow>
    TIMER_NEAR_TARGET < time_now (last inps) - t_old c \<longrightarrow>
    states cfg c inps = replicate (length inps - 1) (state c) @ [turn_of (state c)])
   \<and> (\<forall>d inp d' cmds.
          (state d = GET_STRAIGHT \<or> state d = HOME_STRAIGHT) \<longrightarrow>
          pass_robot inp \<noteq> None \<longrightarrow> tick cfg d inp = Inr (d', cmds) \<longrightarrow>
          timer_near_target d' =
            (let dec = (if near_target d inp then time_now inp - t_old d else 0)
             in if state_old d \<noteq> Some (state d)
                   \<or> (robot_near_target_old d = Some False \<and> near_target d inp)
                then Some (TIMER_NEAR_TARGET - dec)
                else map_option (\<lambda>t. t - dec) (timer_near_target d)))
   \<and> (\<forall>d inp pos dir.
          state d = HOME_STRAIGHT \<longrightarrow> pass_robot inp = Some (pos, dir) \<longrightarrow>
          (if team_my_tag cfg = ''team1'' then in_team_one pos else in_team_two pos) \<longrightarrow>
          (\<forall>d' cmds. tick cfg d inp = Inr (d', cmds) \<longrightarrow> state d' = BACK_OFF)
          \<and> (target d \<noteq> None \<longrightarrow> robot_near_target_old d \<noteq> None \<longrightarrow>
              robot_dir_hist d \<noteq> [] \<longrightarrow> robot_dist_hist d \<noteq> [] \<longrightarrow>
              (near_target d inp \<longrightarrow>
                 state_old d \<noteq> Some HOME_STRAIGHT \<or> robot_near_target_old d = Some False
                 \<or> timer_near_target d \<noteq> None) \<longrightarrow>
              (\<exists>d' cmds. tick cfg d inp = Inr (d', cmds) \<and> state d' = BACK_OFF)))"
proof -
  have st: "(state c = GET_STRAIGHT \<or> state c = HOME_STRAIGHT) \<longrightarrow>
    (state_old c \<noteq> Some (state c) \<or> robot_near_target_old c = Some False) \<longrightarrow>
    robot_near_target_old c \<noteq> None \<longrightarrow>
    robot_dir_hist c \<noteq> [] \<longrightarrow> robot_dist_hist c \<noteq> [] \<longrightarrow>
    inps \<noteq> [] \<longrightarrow> near_passes cfg c inps \<longrightarrow>
    (\<forall>inp \<in> set (butlast inps). time_now inp - t_old c \<le> TIMER_NEAR_TARGET) \<longrightarrow>
    TIMER_NEAR_TARGET < time_now (last inps) - t_old c \<longrightarrow>
    states cfg c inps = replicate (length inps - 1) (state c) @ [turn_of (state c)]"
  proof (intro impI)
    assume a1: "state c = GET_STRAIGHT \<or> state c = HOME_STRAIGHT"
      and a2: "state_old c \<noteq> Some (state c) \<or> robot_near_target_old c = Some False"
      and a3: "robot_near_target_old c \<noteq> None"
      and a4: "robot_dir_hist c \<noteq> []" and a5: "robot_dist_hist c \<noteq> []"
      and a6: "inps \<noteq> []" and a7: "near_passes cfg c inps"
      and a8: "\<forall>inp \<in> set (butlast inps). time_now inp - t_old c \<le> TIMER_NEAR_TARGET"
      and a9: "TIMER_NEAR_TARGET < time_now (last inps) - t_old c"
    have ar: "armed c (t_old c + TIMER_NEAR_TARGET)"
      using a2 a3 by (auto simp: armed_def)
    have early: "\<forall>inp \<in> set (butlast inps). time_now inp \<le> t_old c + TIMER_NEAR_TARGET"
      using a8 by (simp add: algebra_simps)
    have late: "t_old c + TIMER_NEAR_TARGET < time_now (last inps)"
      using a9 by (simp add: algebra_simps)
    show "states cfg c inps = replicate (length inps - 1) (state c) @ [turn_of (state c)]"
      by (rule near_passes_states[OF a6 a1 ar a4 a5 a7 early late])
  qed
  have tm: "\<forall>d inp d' cmds.
          (state d = GET_STRAIGHT \<or> state d = HOME_STRAIGHT) \<longrightarrow>
          pass_robot inp \<noteq> None \<longrightarrow> tick cfg d inp = Inr (d', cmds) \<longrightarrow>
          timer_near_target d' =
            (let dec = (if near_target d inp then time_now inp - t_old d else 0)
             in if state_old d \<noteq> Some (state d)
                   \<or> (robot_near_target_old d = Some False \<and> near_target d inp)
                then Some (TIMER_NEAR_TARGET - dec)
                else map_option (\<lambda>t. t - dec) (timer_near_target d))"
    using drive_timer by blast
  have hz: "\<forall>d inp pos dir.
          state d = HOME_STRAIGHT \<longrightarrow> pass_robot inp = Some (pos, dir) \<longrightarrow>
          (if team_my_tag cfg = ''team1'' then in_team_one pos else in_team_two pos) \<longrightarrow>
          (\<forall>d' cmds. tick cfg d inp = Inr (d', cmds) \<longrightarrow> state d' = BACK_OFF)
          \<and> (target d \<noteq> None \<longrightarrow> robot_near_target_old d \<noteq> None \<longrightarrow>
              robot_dir_hist d \<noteq> [] \<longrightarrow> robot_dist_hist d \<noteq> [] \<longrightarrow>
              (near_target d inp \<longrightarrow>
                 state_old d \<noteq> Some HOME_STRAIGHT \<or> robot_near_target_old d = Some False
                 \<or> timer_near_target d \<noteq> None) \<longrightarrow>
              (\<exists>d' cmds. tick cfg d inp = Inr (d', cmds) \<and> state d' = BACK_OFF))"
  proof (intro allI impI)
    fix d :: ctx and inp pos dir
    assume "state d = HOME_STRAIGHT" and "pass_robot inp = Some (pos, dir)"
      and "if team_my_tag cfg = ''team1'' then in_team_one pos else in_team_two pos"
    then show "(\<forall>d' cmds. tick cfg d inp = Inr (d', cmds) \<longrightarrow> state d' = BACK_OFF)
          \<and> (target d \<noteq> None \<longrightarrow> robot_near_target_old d \<noteq> None \<longrightarrow>
              robot_dir_hist d \<noteq> [] \<longrightarrow> robot_dist_hist d \<noteq> [] \<longrightarrow>
              (near_target d inp \<longrightarrow>
                 state_old d \<noteq> Some HOME_STRAIGHT \<or> robot_near_target_old d = Some False
                 \<or> timer_near_target d \<noteq> None) \<longrightarrow>
              (\<exists>d' cmds. tick cfg d inp = Inr (d', cmds) \<and> state d' = BACK_OFF))"
      by (rule drive_home_zone)
  qed
  from st tm hz show ?thesis by (intro conjI)
qed

theorem near_target_watchdog_witness:
  "(case run example_config (initial_context 0)
           [pass_input 1 (Some (reading \<lparr>pt_x = 0, pt_y = 0\<rparr> 90 [good_apple 1 0 300])),
            pass_input 2 (Some (reading \<lparr>pt_x = 0, pt_y = 0\<rparr> 90 [good_apple 1 0 300])),
            pass_input 3 (Some (reading \<lparr>pt_x = 0, pt_y = 0\<rparr> 90 [good_apple 1 0 300]))] of
      Inl e \<Rightarrow> False
    | Inr c3 \<Rightarrow>
        state c3 = GET_STRAIGHT
        \<and> states example_config c3
             [pass_input 5 (Some (reading \<lparr>pt_x = 0, pt_y = 250\<rparr> 90 [good_apple 1 0 300])),
              pass_input 7 (Some (reading \<lparr>pt_x = 0, pt_y = 250\<rparr> 90 [good_apple 1 0 300]))]
           = [GET_STRAIGHT, GET_TURN])
   \<and> (case run offset_config (initial_context 0)
           [pass_input 1 (Some (reading \<lparr>pt_x = 600, pt_y = 800\<rparr> 90 [good_apple 1 600 850])),
            pass_input 2 (Some (reading \<lparr>pt_x = 600, pt_y = 800\<rparr> 90 [good_apple 1 600 850])),
            pass_input 3 (Some (reading \<lparr>pt_x = 600, pt_y = 800\<rparr> 90 [good_apple 1 600 850]))] of
      Inl e \<Rightarrow> False
    | Inr c3 \<Rightarrow>
        state c3 = HOME_STRAIGHT
        \<and> states offset_config c3
             [pass_input 5 (Some (reading \<lparr>pt_x = 600, pt_y = 960\<rparr> 90 [good_apple 1 600 850])),
              pass_input 7 (Some (reading \<lparr>pt_x = 600, pt_y = 960\<rparr> 90 [good_apple 1 600 850]))]
           = [HOME_STRAIGHT, HOME_TURN])
   \<and> (case run example_config (initial_context 0)
           [pass_input 1 (Some (reading \<lparr>pt_x = 270, pt_y = 800\<rparr> 90 [good_apple 1 270 850])),
            pass_input 2 (Some (reading \<lparr>pt_x = 270, pt_y = 800\<rparr> 90 [good_apple 1 270 850])),
            pass_input 3 (Some (reading \<lparr>pt_x = 270, pt_y = 800\<rparr> 90 [good_apple 1 270 850]))] of
      Inl e \<Rightarrow> False
    | Inr c3 \<Rightarrow>
        state c3 = HOME_STRAIGHT
        \<and> states example_config c3
             [pass_input 7 (Some (reading \<lparr>pt_x = 270, pt_y = 960\<rparr> 90 [good_apple 1 270 850]))]
           = [BACK_OFF])"
proof -
  let ?is = "[pass_input 5 (Some (reading \<lparr>pt_x = 0, pt_y = 250\<rparr> 90 [good_apple 1 0 300])),
              pass_input 7 (Some (reading \<lparr>pt_x = 0, pt_y = 250\<rparr> 90 [good_apple 1 0 300]))]"
  let ?js = "[pass_input 5 (Some (reading \<lparr>pt_x = 600, pt_y = 960\<rparr> 90 [good_apple 1 600 850])),
              pass_input 7 (Some (reading \<lparr>pt_x = 600, pt_y = 960\<rparr> 90 [good_apple 1 600 850]))]"
  let ?k = "pass_input 7 (Some (reading \<lparr>pt_x = 270, pt_y = 960\<rparr> 90 [good_apple 1 270 850]))"
  define c3 where "c3 =
    (case run example_config (initial_context 0)
           [pass_input 1 (Some (reading \<lparr>pt_x = 0, pt_y = 0\<rparr> 90 [good_apple 1 0 300])),
            pass_input 2 (Some (reading \<lparr>pt_x = 0, pt_y = 0\<rparr> 90 [good_apple 1 0 300])),
            pass_input 3 (Some (reading \<lparr>pt_x = 0, pt_y = 0\<rparr> 90 [good_apple 1 0 300]))] of
       Inr c \<Rightarrow> c | Inl e \<Rightarrow> initial_context 0)"
  define h3 where "h3 =
    (case run offset_config (initial_context 0)
           [pass_input 1 (Some (reading \<lparr>pt_x = 600, pt_y = 800\<rparr> 90 [good_apple 1 600 850])),
            pass_input 2 (Some (reading \<lparr>pt_x = 600, pt_y = 800\<rparr> 90 [good_apple 1 600 850])),
            pass_input 3 (Some (reading \<lparr>pt_x = 600, pt_y = 800\<rparr> 90 [good_apple 1 600 850]))] of
       Inr c \<Rightarrow> c | Inl e \<Rightarrow> initial_context 0)"
  define z3 where "z3 =
    (case run example_config (initial_context 0)
           [pass_input 1 (Some (reading \<lparr>pt_x = 270, pt_y = 800\<rparr> 90 [good_apple 1 270 850])),
            pass_input 2 (Some (reading \<lparr>pt_x = 270, pt_y = 800\<rparr> 90 [good_apple 1 270 850])),
            pass_input 3 (Some (reading \<lparr>pt_x = 270, pt_y = 800\<rparr> 90 [good_apple 1 270 850]))] of
       Inr c \<Rightarrow> c | Inl e \<Rightarrow> initial_context 0)"
  have run_c: "run example_config (initial_context 0)
           [pass_input 1 (Some (reading \<lparr>pt_x = 0, pt_y = 0\<rparr> 90 [good_apple 1 0 300])),
            pass_input 2 (Some (reading \<lparr>pt_x = 0, pt_y = 0\<rparr> 90 [good_apple 1 0 300])),
            pass_input 3 (Some (reading \<lparr>pt_x = 0, pt_y = 0\<rparr> 90 [good_apple 1 0 300]))]
        = Inr c3"
    unfolding c3_def
    by (simp add: ex_defs step_defs Let_def atan2_up numeral_3_eq_3)
  have run_h: "run offset_config (initial_context 0)
           [pass_input 1 (Some (reading \<lparr>pt_x = 600, pt_y = 800\<rparr> 90 [good_apple 1 600 850])),
            pass_input 2 (Some (reading \<lparr>pt_x = 600, pt_y = 800\<rparr> 90 [good_apple 1 600 850])),
            pass_input 3 (Some (reading \<lparr>pt_x = 600, pt_y = 800\<rparr> 90 [good_apple 1 600 850]))]
        = Inr h3"
    unfolding h3_def
    by (simp add: offset_config_def ex_defs step_defs Let_def atan2_up numeral_3_eq_3)
  have run_z: "run example_config (initial_context 0)
           [pass_input 1 (Some (reading \<lparr>pt_x = 270, pt_y = 800\<rparr> 90 [good_apple 1 270 850])),
            pass_input 2 (Some (reading \<lparr>pt_x = 270, pt_y = 800\<rparr> 90 [good_apple 1 270 850])),
            pass_input 3 (Some (reading \<lparr>pt_x = 270, pt_y = 800\<rparr> 90 [good_apple 1 270 850]))]
        = Inr z3"
    unfolding z3_def
    by (simp add: ex_defs step_defs Let_def atan2_up numeral_3_eq_3)
  have c1: "state c3 = GET_STRAIGHT \<or> state c3 = HOME_STRAIGHT"
    and c2: "state_old c3 \<noteq> Some (state c3) \<or> robot_near_target_old c3 = Some False"
    and c3': "robot_near_target_old c3 \<noteq> None"
    and c4: "robot_dir_hist c3 \<noteq> []" and c5: "robot_dist_hist c3 \<noteq> []"
    and c8: "\<forall>inp \<in> set (butlast ?is). time_now inp - t_old c3 \<le> TIMER_NEAR_TARGET"
    and c9: "TIMER_NEAR_TARGET < time_now (last ?is) - t_old c3"
    and cs: "state c3 = GET_STRAIGHT"
    unfolding c3_def
    by (simp_all add: ex_defs step_defs Let_def atan2_up numeral_3_eq_3)
  have c6: "?is \<noteq> []" by simp
  have c7: "near_passes example_config c3 ?is"
    unfolding c3_def
    by (simp add: ex_defs step_defs near_target_def arrival_def pass_robot_def
        Let_def atan2_up numeral_3_eq_3)
  have g1: "state h3 = GET_STRAIGHT \<or> state h3 = HOME_STRAIGHT"
    and g2: "state_old h3 \<noteq> Some (state h3) \<or> robot_near_target_old h3 = Some False"
    and g3: "robot_near_target_old h3 \<noteq> None"
    and g4: "robot_dir_hist h3 \<noteq> []" and g5: "robot_dist_hist h3 \<noteq> []"
    and g8: "\<forall>inp \<in> set (butlast ?js). time_now inp - t_old h3 \<le> TIMER_NEAR_TARGET"
    and g9: "TIMER_NEAR_TARGET < time_now (last ?js) - t_old h3"
    and gs: "state h3 = HOME_STRAIGHT"
    unfolding h3_def
    by (simp_all add: offset_config_def ex_defs step_defs Let_def atan2_up numeral_3_eq_3)
  have g6: "?js \<noteq> []" by simp
  have g7: "near_passes offset_config h3 ?js"
    unfolding h3_def
    by (simp add: offset_config_def ex_defs step_defs near_target_def arrival_def
        pass_robot_def in_team_one_def Let_def atan2_up numeral_3_eq_3)
  have z1: "state z3 = HOME_STRAIGHT"
    and z2: "pass_robot ?k = Some (\<lparr>pt_x = 270, pt_y = 960\<rparr>, 90)"
    and z3': "if team_my_tag example_config = ''team1''
             then in_team_one \<lparr>pt_x = 270, pt_y = 960\<rparr>
             else in_team_two \<lparr>pt_x = 270, pt_y = 960\<rparr>"
    and z4: "target z3 \<noteq> None" and z5: "robot_near_target_old z3 \<noteq> None"
    and z6: "robot_dir_hist z3 \<noteq> []" and z7: "robot_dist_hist z3 \<noteq> []"
    and z8: "near_target z3 ?k \<longrightarrow>
               state_old z3 \<noteq> Some HOME_STRAIGHT \<or> robot_near_target_old z3 = Some False
               \<or> timer_near_target z3 \<noteq> None"
    unfolding z3_def
    by (simp_all add: ex_defs step_defs pass_robot_def in_team_one_def
        Let_def atan2_up numeral_3_eq_3)
  note w = near_target_watchdog[of c3 ?is example_config]
  note v = near_target_watchdog[of h3 ?js offset_config]
  from w c1 c2 c3' c4 c5 c6 c7 c8 c9
  have sc: "states example_config c3 ?is
              = replicate (length ?is - 1) (state c3) @ [turn_of (state c3)]"
    by blast
  from v g1 g2 g3 g4 g5 g6 g7 g8 g9
  have sh: "states offset_config h3 ?js
              = replicate (length ?js - 1) (state h3) @ [turn_of (state h3)]"
    by blast
  from w z1 z2 z3' z4 z5 z6 z7 z8
  obtain d' cmds where "tick example_config z3 ?k = Inr (d', cmds)" and "state d' = BACK_OFF"
    by blast
  then have sz: "states example_config z3 [?k] = [BACK_OFF]" by simp
  from sc sh sz cs gs z1 run_c run_h run_z show ?thesis by simp
qed

text \<open>
  The state change is seen only by the pass right after it: \<^verbatim>\<open>state_old = state\<close> is
  executed also in a pass that gets no reading. With such a pass right after the change
  to \<^verbatim>\<open>GET_STRAIGHT\<close>, the next pass does not set the countdown and, away from the target,
  reads the unbound \<^verbatim>\<open>timer_near_target\<close>; without that pass the countdown is set.
\<close>

lemma skipped_pass_hides_state_change:
  "run example_config (initial_context 0)
     [pass_input 1 (Some (reading \<lparr>pt_x = 0, pt_y = 0\<rparr> 90 [good_apple 1 0 300])),
      pass_input 2 (Some (reading \<lparr>pt_x = 0, pt_y = 0\<rparr> 90 [good_apple 1 0 300])),
      pass_input 3 (Some (reading \<lparr>pt_x = 0, pt_y = 0\<rparr> 90 [good_apple 1 0 300])),
      pass_input 4 None,
      pass_input 5 (Some (reading \<lparr>pt_x = 0, pt_y = 0\<rparr> 90 [good_apple 1 0 300]))]
   = Inl NameError
   \<and> (case run example_config (initial_context 0)
     [pass_input 1 (Some (reading \<lparr>pt_x = 0, pt_y = 0\<rparr> 90 [good_apple 1 0 300])),
      pass_input 2 (Some (reading \<lparr>pt_x = 0, pt_y = 0\<rparr> 90 [good_apple 1 0 300])),
      pass_input 3 (Some (reading \<lparr>pt_x = 0, pt_y = 0\<rparr> 90 [good_apple 1 0 300])),
      pass_input 5 (Some (reading \<lparr>pt_x = 0, pt_y = 0\<rparr> 90 [good_apple 1 0 300]))] of
        Inl e \<Rightarrow> False
      | Inr c \<Rightarrow> state c = GET_STRAIGHT \<and> timer_near_target c = Some 3)"
  by (simp add: ex_defs step_defs Let_def atan2_up numeral_3_eq_3)

end
